theory Spec2Isabelle
  imports Complex_Main "HOL-Library.Sublist"
begin

section \<open>Python values and strings\<close>

text \<open>
  The storage manager is three Python modules: \<open>disk_manager.py\<close> (classification,
  preparation, configuration and orchestration), \<open>snapraid_manager.py\<close> (status parsing
  and the streaming adapters) and \<open>app.py\<close> (the transport, of which only the progress
  sink \<open>emit_progress\<close> is modelled).

  Text is a \<open>string\<close>: one \<open>char\<close> per code point, so the model covers the texts whose
  code points lie below 256. The human-readable messages of the source are Arabic string
  literals; each of them is a constructor of a datatype here, carrying the values the
  literal interpolates.

  A Python float is modelled by the rational it holds (type \<open>rat\<close>). The sizes of the
  inventory go through \<open>round_double\<close> below at every operation, as the doubles of the
  source do. The progress percentage \<open>(current_step / total_steps) * 100\<close> is kept as
  its exact value.
\<close>

datatype pyval = PyNone | PyInt int | PyFloat rat

text \<open>Truth value testing, as \<open>if percentage:\<close> applies it to a number or \<open>None\<close>.\<close>

fun truthy :: "pyval \<Rightarrow> bool" where
  "truthy PyNone = False"
| "truthy (PyInt i) = (i \<noteq> 0)"
| "truthy (PyFloat r) = (r \<noteq> 0)"

fun num_value :: "pyval \<Rightarrow> rat" where
  "num_value PyNone = 0"
| "num_value (PyInt i) = of_int i"
| "num_value (PyFloat r) = r"

text \<open>\<open>str.isspace\<close> and the digits \<open>int\<close> and \<open>\d\<close> accept, on code points below 256.\<close>

definition is_space :: "char \<Rightarrow> bool" where
  "is_space c = (of_char c \<in> {9, 10, 11, 12, 13, 28, 29, 30, 31, 32, 133, 160 :: nat})"

definition is_digit :: "char \<Rightarrow> bool" where
  "is_digit c = (48 \<le> (of_char c :: nat) \<and> (of_char c :: nat) \<le> 57)"

definition digit_val :: "char \<Rightarrow> nat" where
  "digit_val c = of_char c - 48"

text \<open>The value of a string of decimal digits, most significant first.\<close>

definition digits_value :: "string \<Rightarrow> nat" where
  "digits_value ds = foldl (\<lambda>acc c. 10 * acc + digit_val c) 0 ds"

text \<open>\<open>str(n)\<close> for a natural number, as an f-string interpolates it.\<close>

function show_nat :: "nat \<Rightarrow> string" where
  "show_nat n =
     (if n < 10 then [''0123456789'' ! n]
      else show_nat (n div 10) @ [''0123456789'' ! (n mod 10)])"
  by pat_completeness auto
termination show_nat
  by (relation "measure id") auto

declare show_nat.simps [simp del]

text \<open>\<open>s.startswith(p)\<close>, \<open>s.endswith(p)\<close> and \<open>p in s\<close>.\<close>

fun startswith :: "string \<Rightarrow> string \<Rightarrow> bool" where
  "startswith s [] = True"
| "startswith [] (p # ps) = False"
| "startswith (c # cs) (p # ps) = (c = p \<and> startswith cs ps)"

definition endswith :: "string \<Rightarrow> string \<Rightarrow> bool" where
  "endswith s p = startswith (rev s) (rev p)"

fun contains :: "string \<Rightarrow> string \<Rightarrow> bool" where
  "contains [] p = (p = [])"
| "contains (c # cs) p = (startswith (c # cs) p \<or> contains cs p)"

text \<open>
  \<open>s.replace(old, new)\<close> for a non-empty \<open>old\<close>: every occurrence, left to right,
  the search resuming after the replaced text.
\<close>

fun replace_fuel :: "nat \<Rightarrow> string \<Rightarrow> string \<Rightarrow> string \<Rightarrow> string" where
  "replace_fuel 0 old new s = s"
| "replace_fuel (Suc fuel) old new [] = []"
| "replace_fuel (Suc fuel) old new (c # cs) =
     (if startswith (c # cs) old
      then new @ replace_fuel fuel old new (drop (length old) (c # cs))
      else c # replace_fuel fuel old new cs)"

definition replace :: "string \<Rightarrow> string \<Rightarrow> string \<Rightarrow> string" where
  "replace old new s = replace_fuel (length s) old new s"

text \<open>\<open>s.strip()\<close>, \<open>s.lower()\<close> on ASCII letters, \<open>sep.join(xs)\<close> and \<open>s.split('\n')\<close>.\<close>

definition strip :: "string \<Rightarrow> string" where
  "strip s = rev (dropWhile is_space (rev (dropWhile is_space s)))"

definition lower_char :: "char \<Rightarrow> char" where
  "lower_char c =
     (if 65 \<le> (of_char c :: nat) \<and> (of_char c :: nat) \<le> 90 then char_of (of_char c + 32 :: nat)
      else c)"

definition lower :: "string \<Rightarrow> string" where
  "lower s = map lower_char s"

fun join :: "string \<Rightarrow> string list \<Rightarrow> string" where
  "join sep [] = []"
| "join sep [x] = x"
| "join sep (x # y # ys) = x @ sep @ join sep (y # ys)"

fun split_lines :: "string \<Rightarrow> string \<Rightarrow> string list" where
  "split_lines acc [] = [rev acc]"
| "split_lines acc (c # cs) =
     (if c = CHR 0x0A then rev acc # split_lines [] cs else split_lines (c # acc) cs)"

definition split_nl :: "string \<Rightarrow> string list" where
  "split_nl s = split_lines [] s"

section \<open>Doubles\<close>

text \<open>
  \<open>round_half_even\<close> rounds a non-negative rational to the nearest natural number, a
  tie going to the even neighbour.

  \<open>round_double\<close> rounds a rational to the nearest IEEE double, a tie going to the even
  significand: \<open>binade\<close> finds the power of two \<open>u\<close> with \<open>u \<le> |x| < 2 * u\<close> by
  doubling or halving, starting from 1 (1100 steps reach beyond both ends of the range of
  the doubles); below \<open>2 ^ -1022\<close> the spacing is that of the subnormal numbers; the
  spacing of the doubles in that binade is \<open>u / 2 ^ 52\<close>. A result of magnitude
  \<open>2 ^ 1024\<close> or more is infinity, which is represented by \<open>2 ^ 1024\<close> with its sign: it
  is larger than every finite double, and nothing but comparison is applied to it.
\<close>

definition round_half_even :: "rat \<Rightarrow> nat" where
  "round_half_even y =
     (let n = nat \<lfloor>y\<rfloor>; d = y - of_nat n in
      if d < 1 / 2 then n else if 1 / 2 < d then n + 1 else if even n then n else n + 1)"

fun binade :: "nat \<Rightarrow> rat \<Rightarrow> rat \<Rightarrow> rat" where
  "binade 0 x u = u"
| "binade (Suc fuel) x u =
     (if 2 * u \<le> x then binade fuel x (2 * u)
      else if x < u then binade fuel x (u / 2)
      else u)"

definition round_double :: "rat \<Rightarrow> rat" where
  "round_double x =
     (if x = 0 then 0
      else
        (let a = \<bar>x\<bar>;
             u = max (binade 1100 a 1) (1 / 2 ^ 1022);
             ulp = u / 2 ^ 52;
             m = of_nat (round_half_even (a / ulp)) * ulp;
             r = (if 2 ^ 1024 \<le> m then 2 ^ 1024 else m)
         in if x < 0 then - r else r))"

section \<open>The host: external commands, files and the effect trace\<close>

text \<open>
  Every external command goes through \<open>subprocess.run(cmd, shell=True, ...)\<close>. The host
  is a parameter: \<open>shell\<close> gives the outcome of a command line (the process completed
  with an exit status and the text of \<open>result.stdout\<close>, or \<open>subprocess.run\<close> raised, for
  instance on the 30 second timeout or on output that does not decode), and the remaining
  fields give the outcome of the file operations
  of the configuration generator. One call of the manager sees one host: the same command
  gives the same outcome each time it is asked within a call.
\<close>

datatype outcome = Completed int string | Raised string

record env =
  shell :: "string \<Rightarrow> outcome"
  read_file :: "string \<Rightarrow> string option"
  makedirs_ok :: "string \<Rightarrow> bool"
  append_ok :: "string \<Rightarrow> bool"
  write_ok :: "string \<Rightarrow> bool"
  path_exists :: "string \<Rightarrow> bool"

text \<open>
  The exceptions of the model. \<open>InsufficientDisks\<close> is the \<open>Exception\<close> that
  \<open>setup_automatic\<close> raises with the message "at least two disks must be supplied";
  \<open>OSError\<close> carries the path of the file operation, or the command line of the
  process, that failed; \<open>NameError\<close> the name that is not bound; \<open>IndexError\<close> is an
  index out of range; \<open>UnicodeDecodeError\<close> is raised by a text stream whose bytes do not
  decode.
\<close>

datatype error =
  InsufficientDisks | OSError string | NameError string | IndexError | UnicodeDecodeError

text \<open>
  The messages of \<open>disk_manager.py\<close>, one constructor per string literal:
  "preparing <disk>", "wiping old data", "creating partition table", "creating partition",
  "formatting file system", "preparation of <disk> complete", the five orchestration
  messages with their \<open>(current_step/total_steps)\<close> suffix (the data-disk one also
  carries the disk's index), and "setup succeeded".
\<close>

datatype message =
    Msg_preparing string
  | Msg_wiping
  | Msg_partition_table
  | Msg_create_partition
  | Msg_formatting
  | Msg_prepared string
  | Msg_parity nat nat
  | Msg_data nat nat nat
  | Msg_fstab nat nat
  | Msg_mergerfs nat nat
  | Msg_snapraid nat nat
  | Msg_setup_done

text \<open>
  What a call does to the host, in order: a command run, a progress callback invoked
  (the entry holds what the callback made of its three arguments), a directory created,
  a file read, text appended to a file, a file written.
\<close>

datatype 'e action =
    Run string
  | Progress 'e
  | MakeDirs string
  | ReadFile string
  | AppendFile string string
  | WriteFile string string

type_synonym ('a, 'e) eff = "(error + 'a) \<times> 'e action list"

type_synonym 'e callback = "string \<Rightarrow> message \<Rightarrow> pyval \<Rightarrow> 'e"

text \<open>Sequencing: an exception ends the call, and the trace so far stays.\<close>

definition and_then :: "('a, 'e) eff \<Rightarrow> ('a \<Rightarrow> ('b, 'e) eff) \<Rightarrow> ('b, 'e) eff" where
  "and_then m f =
     (case fst m of
        Inl err \<Rightarrow> (Inl err, snd m)
      | Inr x \<Rightarrow> (fst (f x), snd m @ snd (f x)))"

definition return_ok :: "'a \<Rightarrow> ('a, 'e) eff" where
  "return_ok x = (Inr x, [])"

definition raise :: "error \<Rightarrow> ('a, 'e) eff" where
  "raise err = (Inl err, [])"

text \<open>
  \<open>DiskManager.run_command\<close>: the stripped output of the command whatever its exit
  status, and the text \<open>Error: ...\<close> when \<open>subprocess.run\<close> raised. It never raises.
\<close>

definition run_command :: "env \<Rightarrow> string \<Rightarrow> string" where
  "run_command e cmd =
     (case shell e cmd of
        Completed status out \<Rightarrow> strip out
      | Raised msg \<Rightarrow> ''Error: '' @ msg)"

definition exec :: "env \<Rightarrow> string \<Rightarrow> (string, 'e) eff" where
  "exec e cmd = (Inr (run_command e cmd), [Run cmd])"

text \<open>\<open>if progress_callback: progress_callback(step, message, percentage)\<close>.\<close>

definition notify :: "'e callback option \<Rightarrow> string \<Rightarrow> message \<Rightarrow> pyval \<Rightarrow> (unit, 'e) eff" where
  "notify progress_callback step msg percentage =
     (case progress_callback of
        None \<Rightarrow> (Inr (), [])
      | Some f \<Rightarrow> (Inr (), [Progress (f step msg percentage)]))"

text \<open>\<open>os.makedirs(path, exist_ok=True)\<close>, \<open>open(path, 'r').read()\<close>,
  \<open>open(path, 'a').write(text)\<close> and \<open>open(path, 'w').writelines(lines)\<close>.\<close>

definition os_makedirs :: "env \<Rightarrow> string \<Rightarrow> (unit, 'e) eff" where
  "os_makedirs e path = (if makedirs_ok e path then (Inr (), [MakeDirs path]) else raise (OSError path))"

definition open_read :: "env \<Rightarrow> string \<Rightarrow> (string, 'e) eff" where
  "open_read e path =
     (case read_file e path of
        Some content \<Rightarrow> (Inr content, [ReadFile path])
      | None \<Rightarrow> raise (OSError path))"

definition open_append :: "env \<Rightarrow> string \<Rightarrow> string \<Rightarrow> (unit, 'e) eff" where
  "open_append e path txt =
     (if append_ok e path then (Inr (), [AppendFile path txt]) else raise (OSError path))"

definition open_write :: "env \<Rightarrow> string \<Rightarrow> string \<Rightarrow> (unit, 'e) eff" where
  "open_write e path txt =
     (if write_ok e path then (Inr (), [WriteFile path txt]) else raise (OSError path))"

text \<open>
  Two views of a trace: the command lines run and the deliveries of the progress
  callback, each in order. \<open>record_call\<close> is the callback that keeps its three arguments.
\<close>

definition commands_of :: "'e action list \<Rightarrow> string list" where
  "commands_of tr = concat (map (\<lambda>a. case a of Run cmd \<Rightarrow> [cmd] | _ \<Rightarrow> []) tr)"

definition progress_of :: "'e action list \<Rightarrow> 'e list" where
  "progress_of tr = concat (map (\<lambda>a. case a of Progress x \<Rightarrow> [x] | _ \<Rightarrow> []) tr)"

definition record_call :: "(string \<times> message \<times> pyval) callback" where
  "record_call step msg percentage = (step, msg, percentage)"

section \<open>Disk preparation (\<open>DiskManager.prepare_disk\<close>)\<close>

text \<open>
  The destructive sequence on one disk. Each command goes through \<open>run_command\<close>, whose
  result the source drops; the six progress calls carry the literal percentages
  \<open>0, 20, 40, 60, 80, 100\<close>. The function has no \<open>raise\<close> and ends in \<open>return True\<close>.
\<close>

definition prepare_disk ::
  "env \<Rightarrow> string \<Rightarrow> string \<Rightarrow> 'e callback option \<Rightarrow> (bool, 'e) eff" where
  "prepare_disk e disk_name label progress_callback =
     (let disk = replace ''/dev/'' [] disk_name in
      and_then (notify progress_callback ''preparing'' (Msg_preparing disk_name) (PyInt 0)) (\<lambda>_.
      and_then (exec e (''umount /dev/'' @ disk @ ''* 2>/dev/null'')) (\<lambda>_.
      and_then (notify progress_callback ''wiping'' Msg_wiping (PyInt 20)) (\<lambda>_.
      and_then (exec e (''wipefs -af /dev/'' @ disk)) (\<lambda>_.
      and_then (exec e (''dd if=/dev/zero of=/dev/'' @ disk @ '' bs=1M count=100 2>/dev/null'')) (\<lambda>_.
      and_then (notify progress_callback ''partitioning'' Msg_partition_table (PyInt 40)) (\<lambda>_.
      and_then (exec e (''parted -s /dev/'' @ disk @ '' mklabel gpt'')) (\<lambda>_.
      and_then (notify progress_callback ''creating'' Msg_create_partition (PyInt 60)) (\<lambda>_.
      and_then (exec e (''parted -s /dev/'' @ disk @ '' mkpart primary ext4 0% 100%'')) (\<lambda>_.
      and_then (exec e (''partprobe /dev/'' @ disk)) (\<lambda>_.
      and_then (exec e ''sleep 2'') (\<lambda>_.
      and_then (notify progress_callback ''formatting'' Msg_formatting (PyInt 80)) (\<lambda>_.
      and_then (exec e (''mkfs.ext4 -F -L '' @ label @ '' /dev/'' @ disk @ ''1'')) (\<lambda>_.
      and_then (notify progress_callback ''complete'' (Msg_prepared disk_name) (PyInt 100)) (\<lambda>_.
      return_ok True)))))))))))))))"

section \<open>Configuration generation\<close>

text \<open>An entry of \<open>prepared_data\<close>: the dictionary \<open>{'disk', 'label', 'number'}\<close>.\<close>

record prepared =
  p_disk :: string
  p_label :: string
  p_number :: nat

text \<open>\<open>get_uuid\<close>: the partition path is the disk itself when it ends in \<open>1\<close>.\<close>

definition uuid_path :: "string \<Rightarrow> string" where
  "uuid_path disk = (if endswith disk ''1'' then disk else disk @ ''1'')"

definition get_uuid :: "env \<Rightarrow> string \<Rightarrow> (string, 'e) eff" where
  "get_uuid e disk = exec e (''blkid -s UUID -o value '' @ uuid_path disk)"

text \<open>The two loops of \<open>setup_fstab\<close> over the data disks.\<close>

fun makedirs_data :: "env \<Rightarrow> prepared list \<Rightarrow> (unit, 'e) eff" where
  "makedirs_data e [] = return_ok ()"
| "makedirs_data e (d # ds) =
     and_then (os_makedirs e (''/mnt/disk'' @ show_nat (p_number d))) (\<lambda>_. makedirs_data e ds)"

definition fstab_line :: "string \<Rightarrow> string \<Rightarrow> string" where
  "fstab_line uuid mount_point =
     ''UUID='' @ uuid @ ''  '' @ mount_point @ ''  ext4  defaults,noatime,nofail  0  2''"

fun data_entries :: "env \<Rightarrow> prepared list \<Rightarrow> (string list, 'e) eff" where
  "data_entries e [] = return_ok []"
| "data_entries e (d # ds) =
     and_then (get_uuid e (p_disk d)) (\<lambda>disk_uuid.
     and_then (data_entries e ds) (\<lambda>rest.
     return_ok (fstab_line disk_uuid (''/mnt/disk'' @ show_nat (p_number d)) # rest)))"

definition setup_fstab :: "env \<Rightarrow> string \<Rightarrow> prepared list \<Rightarrow> (unit, 'e) eff" where
  "setup_fstab e parity_disk data_disks =
     and_then (os_makedirs e ''/mnt/parity'') (\<lambda>_.
     and_then (makedirs_data e data_disks) (\<lambda>_.
     and_then (os_makedirs e ''/mnt/storage'') (\<lambda>_.
     and_then (get_uuid e parity_disk) (\<lambda>parity_uuid.
     and_then (open_read e ''/etc/fstab'') (\<lambda>fstab_content.
     and_then (data_entries e data_disks) (\<lambda>entries.
     and_then (open_append e ''/etc/fstab''
        (join ''\<newline>''
          ([''\<newline># Smart Storage Manager'', fstab_line parity_uuid ''/mnt/parity''] @ entries))) (\<lambda>_.
     and_then (exec e ''mount -a'') (\<lambda>_.
     return_ok ()))))))))"

definition mergerfs_line :: string where
  "mergerfs_line = ''/mnt/disk* /mnt/storage fuse.mergerfs defaults,allow_other,use_ino,cache.files=partial,dropcacheonclose=true,category.create=mfs,minfreespace=20G,fsname=mergerfs 0 0''"

definition setup_mergerfs :: "env \<Rightarrow> (unit, 'e) eff" where
  "setup_mergerfs e =
     and_then (open_append e ''/etc/fstab'' (''\<newline>'' @ mergerfs_line @ ''\<newline>'')) (\<lambda>_.
     and_then (exec e ''mount -a'') (\<lambda>_.
     return_ok ()))"

definition exclusions :: "string list" where
  "exclusions =
     [''exclude *.unrecoverable'', ''exclude /tmp/'', ''exclude /lost+found/'',
      ''exclude *.!sync'', ''exclude .AppleDouble'', ''exclude ._AppleDouble'',
      ''exclude .DS_Store'', ''exclude .Thumbs.db'', ''exclude .fseventsd'',
      ''exclude .Spotlight-V100'', ''exclude .TemporaryItems'', ''exclude .Trashes'']"

definition snapraid_config :: "prepared list \<Rightarrow> string list" where
  "snapraid_config data_disks =
     [''# SnapRAID Configuration - Smart Storage Manager\<newline>'',
      ''parity /mnt/parity/snapraid.parity\<newline>'',
      ''\<newline>content /var/snapraid.content'']
     @ map (\<lambda>d. ''content /mnt/disk'' @ show_nat (p_number d) @ ''/.snapraid.content'') data_disks
     @ [''\<newline>'']
     @ map (\<lambda>d. ''data d'' @ show_nat (p_number d) @ '' /mnt/disk'' @ show_nat (p_number d)) data_disks
     @ [''\<newline># Exclusions'']
     @ map (\<lambda>x. x @ ''\<newline>'') exclusions
     @ [''\<newline>block_size 256'', ''\<newline>autosave 500\<newline>'']"

definition setup_snapraid_config :: "env \<Rightarrow> string \<Rightarrow> prepared list \<Rightarrow> (unit, 'e) eff" where
  "setup_snapraid_config e parity_disk data_disks =
     open_write e ''/etc/snapraid.conf'' (concat (snapraid_config data_disks))"

section \<open>Orchestration (\<open>setup_manual\<close>, \<open>setup_automatic\<close>)\<close>

text \<open>\<open>(current_step / total_steps) * 100\<close>; \<open>total_steps\<close> is at least 4.\<close>

definition percent :: "nat \<Rightarrow> nat \<Rightarrow> pyval" where
  "percent current_step total_steps = PyFloat (of_nat current_step / of_nat total_steps * 100)"

text \<open>
  The loop \<open>for idx, disk in enumerate(data_disks, 1)\<close>: \<open>idx\<close> and \<open>current_step\<close>
  are the loop's state; the result is \<open>prepared_data\<close> and the final \<open>current_step\<close>.
\<close>

fun prepare_data ::
  "env \<Rightarrow> 'e callback option \<Rightarrow> nat \<Rightarrow> nat \<Rightarrow> nat \<Rightarrow> string list
     \<Rightarrow> (prepared list \<times> nat, 'e) eff" where
  "prepare_data e cb total_steps idx current_step [] = return_ok ([], current_step)"
| "prepare_data e cb total_steps idx current_step (disk # disks) =
     (let current_step = current_step + 1 in
      and_then (notify cb ''data'' (Msg_data idx current_step total_steps)
                  (percent current_step total_steps)) (\<lambda>_.
      let label = ''disk'' @ show_nat idx in
      and_then (prepare_disk e disk label cb) (\<lambda>_.
      and_then (prepare_data e cb total_steps (idx + 1) current_step disks) (\<lambda>(rest, final_step).
      return_ok (\<lparr>p_disk = disk, p_label = label, p_number = idx\<rparr> # rest, final_step)))))"

record setup_result =
  r_success :: bool
  r_parity :: string
  r_data_disks :: "prepared list"
  r_message :: message

definition setup_manual ::
  "env \<Rightarrow> string \<Rightarrow> string list \<Rightarrow> 'e callback option \<Rightarrow> (setup_result, 'e) eff" where
  "setup_manual e parity_disk data_disks progress_callback =
     (let total_steps = 1 + length data_disks + 3;
          current_step = 0;
          current_step = current_step + 1 in
      and_then (notify progress_callback ''parity'' (Msg_parity current_step total_steps)
                  (percent current_step total_steps)) (\<lambda>_.
      and_then (prepare_disk e parity_disk ''parity'' progress_callback) (\<lambda>_.
      and_then (prepare_data e progress_callback total_steps 1 current_step data_disks)
        (\<lambda>(prepared_data, current_step).
      let current_step = current_step + 1 in
      and_then (notify progress_callback ''fstab'' (Msg_fstab current_step total_steps)
                  (percent current_step total_steps)) (\<lambda>_.
      and_then (setup_fstab e parity_disk prepared_data) (\<lambda>_.
      let current_step = current_step + 1 in
      and_then (notify progress_callback ''mergerfs'' (Msg_mergerfs current_step total_steps)
                  (percent current_step total_steps)) (\<lambda>_.
      and_then (setup_mergerfs e) (\<lambda>_.
      let current_step = current_step + 1 in
      and_then (notify progress_callback ''snapraid'' (Msg_snapraid current_step total_steps)
                  (percent current_step total_steps)) (\<lambda>_.
      and_then (setup_snapraid_config e parity_disk prepared_data) (\<lambda>_.
      return_ok \<lparr>r_success = True, r_parity = parity_disk, r_data_disks = prepared_data,
                 r_message = Msg_setup_done\<rparr>))))))))))"

text \<open>
  The steps \<open>setup_manual\<close> reports itself, as opposed to the stages \<open>prepare_disk\<close>
  reports through the same callback, and the percentages of the former among the
  recorded calls.
\<close>

definition orchestration_steps :: "string list" where
  "orchestration_steps = [''parity'', ''data'', ''fstab'', ''mergerfs'', ''snapraid'']"

definition own_percentages :: "(string \<times> message \<times> pyval) list \<Rightarrow> pyval list" where
  "own_percentages calls =
     map (\<lambda>(step, msg, percentage). percentage)
       (filter (\<lambda>(step, msg, percentage). step \<in> set orchestration_steps) calls)"

text \<open>
  \<open>int(s)\<close> on a string: surrounding whitespace is dropped, a sign may lead, and the rest
  is decimal digits, single underscores allowed between two digits. \<open>None\<close> is the
  \<open>ValueError\<close>.
\<close>

fun int_body :: "bool \<Rightarrow> string \<Rightarrow> bool" where
  "int_body prev_digit [] = prev_digit"
| "int_body prev_digit (c # cs) =
     (if is_digit c then int_body True cs
      else if c = CHR ''_'' \<and> prev_digit then int_body False cs
      else False)"

definition py_int :: "string \<Rightarrow> int option" where
  "py_int s =
     (let t = strip s;
          negative = startswith t ''-'';
          body = (if startswith t ''-'' \<or> startswith t ''+'' then tl t else t) in
      if int_body False body
      then Some ((if negative then -1 else 1) * int (digits_value (filter is_digit body)))
      else None)"

text \<open>
  \<open>get_disk_size_gb\<close>: \<open>int(size_bytes) / (1024 ** 3)\<close> is the double nearest to the
  quotient of the two integers. The bare \<open>except\<close> gives \<open>0\<close> when the output is not a
  number (\<open>ValueError\<close>) and when the quotient is too large for a double
  (\<open>OverflowError\<close>).
\<close>

definition get_disk_size_gb :: "env \<Rightarrow> string \<Rightarrow> rat" where
  "get_disk_size_gb e disk_name =
     (case py_int (run_command e (''lsblk -bdn -o SIZE /dev/'' @ disk_name @ '' 2>/dev/null'')) of
        Some n \<Rightarrow>
          (let q = round_double (of_int n / (1024 ^ 3)) in
           if 2 ^ 1024 \<le> \<bar>q\<bar> then 0 else q)
      | None \<Rightarrow> 0)"

text \<open>
  \<open>sorted(xs, key=k, reverse=True)\<close> and \<open>xs.sort(key=k, reverse=True)\<close>: the list is
  reversed, sorted stably in ascending order of the key, and reversed again, so that
  elements with equal keys keep their original order.
\<close>

definition sort_desc :: "('a \<Rightarrow> 'k::linorder) \<Rightarrow> 'a list \<Rightarrow> 'a list" where
  "sort_desc k xs = rev (sort_key k (rev xs))"

definition setup_automatic ::
  "env \<Rightarrow> string list \<Rightarrow> 'e callback option \<Rightarrow> (setup_result, 'e) eff" where
  "setup_automatic e disk_list progress_callback =
     (if length disk_list < 2 then raise InsufficientDisks
      else
        (case sort_desc (\<lambda>d. get_disk_size_gb e (replace ''/dev/'' [] d)) disk_list of
           [] \<Rightarrow> raise IndexError
         | parity_disk # data_disks \<Rightarrow> setup_manual e parity_disk data_disks progress_callback))"

section \<open>The progress sink of the transport (\<open>app.emit_progress\<close>)\<close>

text \<open>
  The dictionary handed to \<open>socketio.emit('operation_progress', data)\<close>, as a map from
  its keys to their values.
\<close>

datatype field = Text string | Message message | Number pyval

definition emit_progress :: "string \<Rightarrow> message \<Rightarrow> pyval \<Rightarrow> (string \<rightharpoonup> field)" where
  "emit_progress step msg percentage =
     (let data = [''step'' \<mapsto> Text step, ''message'' \<mapsto> Message msg] in
      if truthy percentage then data(''percentage'' \<mapsto> Number percentage) else data)"

section \<open>Disk inventory and classification (\<open>detect_all_disks\<close>)\<close>

text \<open>The fields \<open>__init__\<close> sets, and a single quote for the command lines that end in one.\<close>

definition excluded_types :: "string list" where
  "excluded_types = [''loop'', ''zram'', ''ram'']"

definition min_size_gb :: nat where
  "min_size_gb = 10"

definition sq :: string where
  "sq = [CHR 0x27]"

definition get_system_disk :: "env \<Rightarrow> string" where
  "get_system_disk e =
     (let system_disk = run_command e
            (''df / | tail -1 | awk '{print $1}' | sed 's/[0-9]*$//' | sed 's|/dev/||'' @ sq) in
      if system_disk = []
      then run_command e
            (''df /boot | tail -1 | awk '{print $1}' | sed 's/[0-9]*$//' | sed 's|/dev/||'' @ sq)
      else system_disk)"

definition is_usb_disk :: "env \<Rightarrow> string \<Rightarrow> bool" where
  "is_usb_disk e disk_name =
     contains (lower (run_command e
        (''udevadm info --query=property --name=/dev/'' @ disk_name
           @ '' 2>/dev/null | grep 'ID_BUS=usb'' @ sq))) ''usb''"

definition get_disk_type :: "env \<Rightarrow> string \<Rightarrow> string" where
  "get_disk_type e disk_name =
     (case read_file e (''/sys/block/'' @ disk_name @ ''/queue/rotational'') of
        Some content \<Rightarrow> (if strip content = ''1'' then ''HDD'' else ''SSD'')
      | None \<Rightarrow> ''Unknown'')"

definition get_disk_model :: "env \<Rightarrow> string \<Rightarrow> string" where
  "get_disk_model e disk_name =
     strip (run_command e (''lsblk -dn -o MODEL /dev/'' @ disk_name @ '' 2>/dev/null''))"

definition get_disk_serial :: "env \<Rightarrow> string \<Rightarrow> string" where
  "get_disk_serial e disk_name =
     run_command e (''udevadm info --query=property --name=/dev/'' @ disk_name
        @ '' 2>/dev/null | grep 'ID_SERIAL_SHORT=' | cut -d= -f2'')"

definition is_mounted :: "env \<Rightarrow> string \<Rightarrow> bool" where
  "is_mounted e disk_name = (run_command e (''mount | grep '^/dev/'' @ disk_name @ sq) \<noteq> [])"

definition is_system_mount :: "env \<Rightarrow> string \<Rightarrow> bool" where
  "is_system_mount e disk_name =
     (run_command e (''mount | grep '^/dev/'' @ disk_name @ sq
        @ '' | grep -E ' /boot | /home | /var | /usr '' @ sq) \<noteq> [])"

text \<open>
  \<open>f"{x:.1f}"\<close> applied to a double \<open>x\<close>: the decimal with one digit after the point
  nearest to the value the double holds, a tie going to the even neighbour, the sign kept.
  In \<open>format_size\<close> the quotient \<open>size_gb / 1000\<close> is a double division, so it is
  rounded to a double before it is formatted.
\<close>

definition fmt1 :: "rat \<Rightarrow> string" where
  "fmt1 x =
     (let n = round_half_even (\<bar>x\<bar> * 10) in
      (if x < 0 then ''-'' else []) @ show_nat (n div 10) @ ''.'' @ show_nat (n mod 10))"

definition format_size :: "rat \<Rightarrow> string" where
  "format_size size_gb =
     (if 1000 \<le> size_gb then fmt1 (round_double (size_gb / 1000)) @ '' TB''
      else fmt1 size_gb @ '' GB'')"

text \<open>
  \<open>parse_size\<close>: the first maximal run of digits and points
  (\<open>re.findall(r'[\d.]+', size_str)[0]\<close>) read by \<open>float\<close>, times 1000 when the text
  contains \<open>TB\<close>; \<open>0\<close> when there is no run (\<open>IndexError\<close>) or the run is not a
  number (\<open>ValueError\<close>). \<open>float\<close> gives the double nearest to the decimal, and the
  product is a double multiplication.
\<close>

definition is_num_char :: "char \<Rightarrow> bool" where
  "is_num_char c = (is_digit c \<or> c = CHR ''.'')"

definition first_num_run :: "string \<Rightarrow> string option" where
  "first_num_run s =
     (let r = takeWhile is_num_char (dropWhile (\<lambda>c. \<not> is_num_char c) s) in
      if r = [] then None else Some r)"

definition py_float :: "string \<Rightarrow> rat option" where
  "py_float r =
     (let ip = takeWhile is_digit r; rest = dropWhile is_digit r in
      case rest of
        [] \<Rightarrow> (if ip = [] then None else Some (round_double (of_nat (digits_value ip))))
      | c # fp \<Rightarrow>
          (if c = CHR ''.'' \<and> list_all is_digit fp \<and> (ip \<noteq> [] \<or> fp \<noteq> [])
           then Some (round_double
                  (of_nat (digits_value ip) + of_nat (digits_value fp) / 10 ^ length fp))
           else None))"

definition parse_size :: "string \<Rightarrow> rat" where
  "parse_size size_str =
     (case first_num_run size_str of
        None \<Rightarrow> 0
      | Some r \<Rightarrow>
          (case py_float r of
             None \<Rightarrow> 0
           | Some num \<Rightarrow>
               (if contains size_str ''TB'' then round_double (num * 1000) else num)))"

text \<open>
  The reasons for exclusion, one constructor per string literal: "virtual device",
  "system disk", "external USB disk", "too small (< <n>GB)" and "mounted on system
  directories".
\<close>

datatype reason = Virtual_device | System_disk | External_usb | Too_small nat | System_mount

record disk_info =
  d_name :: string
  d_size :: string
  d_type :: string
  d_model :: string
  d_serial :: string
  d_mounted :: bool
  d_reason :: "reason option"

text \<open>The \<open>if\<close>/\<open>elif\<close> chain of the loop body; \<open>None\<close> when no branch is taken.\<close>

definition excluded_reason :: "env \<Rightarrow> string \<Rightarrow> string \<Rightarrow> reason option" where
  "excluded_reason e system_disk disk =
     (if list_ex (startswith disk) excluded_types then Some Virtual_device
      else if disk = system_disk then Some System_disk
      else if is_usb_disk e disk then Some External_usb
      else if get_disk_size_gb e disk < of_nat min_size_gb then Some (Too_small min_size_gb)
      else if is_system_mount e disk then Some System_mount
      else None)"

definition collect_info :: "env \<Rightarrow> string \<Rightarrow> disk_info" where
  "collect_info e disk =
     \<lparr>d_name = ''/dev/'' @ disk,
      d_size = format_size (get_disk_size_gb e disk),
      d_type = get_disk_type e disk,
      d_model = get_disk_model e disk,
      d_serial = get_disk_serial e disk,
      d_mounted = is_mounted e disk,
      d_reason = None\<rparr>"

text \<open>
  The loop over \<open>all_disks\<close>, with the two lists it appends to as its state
  (\<open>available\<close>, \<open>excluded\<close>).
\<close>

fun classify_loop ::
  "env \<Rightarrow> string \<Rightarrow> disk_info list \<times> disk_info list \<Rightarrow> string list
     \<Rightarrow> disk_info list \<times> disk_info list" where
  "classify_loop e system_disk (available, excluded) [] = (available, excluded)"
| "classify_loop e system_disk (available, excluded) (disk # disks) =
     (if disk = [] then classify_loop e system_disk (available, excluded) disks
      else
        (case excluded_reason e system_disk disk of
           Some r \<Rightarrow>
             classify_loop e system_disk
               (available, excluded @ [(collect_info e disk)\<lparr>d_reason := Some r\<rparr>]) disks
         | None \<Rightarrow>
             classify_loop e system_disk (available @ [collect_info e disk], excluded) disks))"

record detection =
  det_available :: "disk_info list"
  det_excluded :: "disk_info list"
  det_system_disk :: string
  det_count_available :: nat
  det_count_excluded :: nat

definition all_disks :: "env \<Rightarrow> string list" where
  "all_disks e = split_nl (run_command e (''lsblk -dn -o NAME,TYPE | grep disk | awk '{print $1}'' @ sq))"

definition detect_all_disks :: "env \<Rightarrow> detection" where
  "detect_all_disks e =
     (let system_disk = get_system_disk e;
          (available, excluded) = classify_loop e system_disk ([], []) (all_disks e);
          available = sort_desc (\<lambda>x. parse_size (d_size x)) available in
      \<lparr>det_available = available,
       det_excluded = excluded,
       det_system_disk = ''/dev/'' @ system_disk,
       det_count_available = length available,
       det_count_excluded = length excluded\<rparr>)"

text \<open>
  The exclusion rules as the specification numbers them, 1 to 5, each with the test the
  source makes for it (rule 1 is the source's test on the device name) and with its
  reason: 1 virtual device, 2 system disk, 3 external USB disk, 4 too small, 5 mounted
  on a system path. The classification of the source is \<open>excluded_reason\<close> above; these
  two definitions state the numbering it is compared with.
\<close>

definition spec_rule_matches :: "env \<Rightarrow> string \<Rightarrow> string \<Rightarrow> nat \<Rightarrow> bool" where
  "spec_rule_matches e system_disk disk k =
     (if k = 1 then list_ex (startswith disk) excluded_types
      else if k = 2 then disk = system_disk
      else if k = 3 then is_usb_disk e disk
      else if k = 4 then get_disk_size_gb e disk < of_nat min_size_gb
      else if k = 5 then is_system_mount e disk
      else False)"

definition spec_rule_reason :: "nat \<Rightarrow> reason" where
  "spec_rule_reason k =
     (if k = 1 then Virtual_device
      else if k = 2 then System_disk
      else if k = 3 then External_usb
      else if k = 4 then Too_small min_size_gb
      else System_mount)"

section \<open>Parity status (\<open>SnapRAIDManager.get_status\<close>)\<close>

text \<open>
  \<open>SnapRAIDManager.run_command\<close> returns the output as it is (not stripped), and the
  text \<open>Error: ...\<close> when \<open>subprocess.run\<close> raised.
\<close>

definition snapraid_bin :: string where
  "snapraid_bin = ''/usr/local/bin/snapraid''"

definition config_file :: string where
  "config_file = ''/etc/snapraid.conf''"

definition snap_run_command :: "env \<Rightarrow> string \<Rightarrow> string" where
  "snap_run_command e cmd =
     (case shell e cmd of
        Completed status out \<Rightarrow> out
      | Raised msg \<Rightarrow> ''Error: '' @ msg)"

text \<open>
  The names bound at the top level of \<open>snapraid_manager.py\<close>: its three imports
  (\<open>import subprocess\<close>, \<open>import re\<close>, \<open>from datetime import datetime\<close>) and its
  class. A name that is neither bound there nor a builtin raises \<open>NameError\<close> where it
  is evaluated; \<open>os\<close> is not a builtin.
\<close>

definition module_globals :: "string list" where
  "module_globals = [''subprocess'', ''re'', ''datetime'', ''SnapRAIDManager'']"

definition lookup_global :: "string \<Rightarrow> error + unit" where
  "lookup_global name = (if name \<in> set module_globals then Inr () else Inl (NameError name))"

record status =
  st_configured :: bool
  st_protected :: bool
  st_files_count :: int
  st_changes :: int
  st_last_sync :: "string option"

text \<open>
  The two regular expressions. In \<open>(\d+)\s+(?:added|removed|updated)\<close> a match that
  starts at a given position is unique: \<open>\d+\<close> must take the whole run of digits (a
  shorter one is followed by a digit, which \<open>\s+\<close> refuses) and \<open>\s+\<close> the whole run
  of white space (a shorter one is followed by white space, which no keyword starts
  with). \<open>match_changes\<close> gives group 1 and the text after the match;
  \<open>findall_changes\<close> is \<open>re.findall\<close>, which resumes after each match and moves one
  character on where there is none. \<open>(\d+)\s+files\<close> and \<open>re.search\<close> likewise.
\<close>

definition keyword_end :: "string \<Rightarrow> string option" where
  "keyword_end s =
     (if startswith s ''added'' then Some (drop 5 s)
      else if startswith s ''removed'' then Some (drop 7 s)
      else if startswith s ''updated'' then Some (drop 7 s)
      else None)"

definition match_changes :: "string \<Rightarrow> (string \<times> string) option" where
  "match_changes s =
     (let ds = takeWhile is_digit s; r1 = dropWhile is_digit s;
          ws = takeWhile is_space r1; r2 = dropWhile is_space r1 in
      if ds = [] \<or> ws = [] then None
      else (case keyword_end r2 of None \<Rightarrow> None | Some rest \<Rightarrow> Some (ds, rest)))"

lemma match_changes_shorter:
  "match_changes s = Some (g, rest) \<Longrightarrow> length rest < length s"
proof -
  assume m: "match_changes s = Some (g, rest)"
  let ?r1 = "dropWhile is_digit s"
  let ?r2 = "dropWhile is_space ?r1"
  from m have ne: "takeWhile is_digit s \<noteq> []" and k: "keyword_end ?r2 = Some rest"
    by (auto simp: match_changes_def Let_def split: if_splits option.splits)
  from k have "length rest \<le> length ?r2"
    by (auto simp: keyword_end_def split: if_splits)
  moreover have "length ?r2 \<le> length ?r1" by (rule length_dropWhile_le)
  moreover have "length ?r1 < length s"
  proof -
    have "length (takeWhile is_digit s) + length ?r1 = length s"
      by (metis length_append takeWhile_dropWhile_id)
    with ne show ?thesis by (cases "takeWhile is_digit s") auto
  qed
  ultimately show ?thesis by linarith
qed

function findall_changes :: "string \<Rightarrow> string list" where
  "findall_changes [] = []"
| "findall_changes (c # cs) =
     (case match_changes (c # cs) of
        Some (g, rest) \<Rightarrow> g # findall_changes rest
      | None \<Rightarrow> findall_changes cs)"
  by pat_completeness auto
termination findall_changes
  by (relation "measure length") (auto dest: match_changes_shorter)

definition match_files :: "string \<Rightarrow> string option" where
  "match_files s =
     (let ds = takeWhile is_digit s; r1 = dropWhile is_digit s;
          ws = takeWhile is_space r1; r2 = dropWhile is_space r1 in
      if ds = [] \<or> ws = [] then None
      else if startswith r2 ''files'' then Some ds
      else None)"

fun search_files :: "string \<Rightarrow> string option" where
  "search_files [] = None"
| "search_files (c # cs) =
     (case match_files (c # cs) of
        Some g \<Rightarrow> Some g
      | None \<Rightarrow> search_files cs)"

text \<open>Lines 39 to 51 of \<open>get_status\<close>: what the parsing makes of the \<open>status\<close> dictionary.\<close>

definition interpret_output :: "status \<Rightarrow> string \<Rightarrow> status" where
  "interpret_output status output =
     (let status =
            (if contains output ''No differences''
             then status\<lparr>st_protected := True, st_changes := 0\<rparr>
             else status\<lparr>st_changes :=
                    sum_list (map (\<lambda>c. int (digits_value c)) (findall_changes output))\<rparr>) in
      case search_files output of
        Some g \<Rightarrow> status\<lparr>st_files_count := int (digits_value g)\<rparr>
      | None \<Rightarrow> status)"

text \<open>
  \<open>get_status\<close>: the command runs first; the dictionary literal that initialises
  \<open>status\<close> then evaluates \<open>os.path.exists(self.config_file)\<close>, which looks the name
  \<open>os\<close> up.
\<close>

definition initial_status :: "bool \<Rightarrow> status" where
  "initial_status configured =
     \<lparr>st_configured = configured, st_protected = False, st_files_count = 0, st_changes = 0,
      st_last_sync = None\<rparr>"

definition get_status :: "env \<Rightarrow> error + status" where
  "get_status e =
     (let output = snap_run_command e (snapraid_bin @ '' status'') in
      case lookup_global ''os'' of
        Inl err \<Rightarrow> Inl err
      | Inr _ \<Rightarrow> Inr (interpret_output (initial_status (path_exists e config_file)) output))"

section \<open>The streaming adapters (\<open>sync_with_progress\<close>, \<open>scrub_with_progress\<close>)\<close>

text \<open>
  A run of \<open>subprocess.Popen(..., stdout=PIPE, stderr=STDOUT, text=True)\<close>, with standard
  error merged into the output:
  \<^item> \<open>Exited out status\<close>: the process wrote bytes that decode to the text \<open>out\<close> and
    ended with the exit status;
  \<^item> \<open>Undecodable s\<close>: the output does not decode; the reader was handed the text \<open>s\<close>
    before the decoder raised \<open>UnicodeDecodeError\<close>;
  \<^item> \<open>Not_started\<close>: \<open>Popen\<close> itself raised \<open>OSError\<close>.
  The launcher \<open>popen\<close> gives the run of a command line, and \<open>clock k\<close> is the \<open>k\<close>-th
  reading of \<open>datetime.now().isoformat()\<close>. A generator is modelled by the list of the
  events it yields and by how it ends: it returns, or it raises.

  The messages: a line of output, "sync completed successfully", "sync failed" and
  "scrub completed".
\<close>

datatype process = Exited string int | Undecodable string | Not_started

datatype snap_message = Line string | Msg_sync_ok | Msg_sync_failed | Msg_scrub_done

record snap_event =
  ev_type :: string
  ev_message :: snap_message
  ev_timestamp :: "string option"
  ev_success :: "bool option"

text \<open>
  The text stream reads with universal newlines: a carriage return followed by a line
  feed, and a carriage return alone, are both handed on as one line feed.
\<close>

fun universal_newlines :: "string \<Rightarrow> string" where
  "universal_newlines [] = []"
| "universal_newlines [c] = (if c = CHR 0x0D then [CHR 0x0A] else [c])"
| "universal_newlines (c # d # cs) =
     (if c = CHR 0x0D \<and> d = CHR 0x0A then CHR 0x0A # universal_newlines cs
      else if c = CHR 0x0D then CHR 0x0A # universal_newlines (d # cs)
      else c # universal_newlines (d # cs))"

text \<open>
  \<open>iter(process.stdout.readline, '')\<close> on a text whose newlines are translated: the lines
  with their line feed, the last one without it when the text does not end in one, up to
  the empty string at the end.
\<close>

fun read_lines :: "string \<Rightarrow> string \<Rightarrow> string list" where
  "read_lines acc [] = (if acc = [] then [] else [rev acc])"
| "read_lines acc (c # cs) =
     (if c = CHR 0x0A then rev (c # acc) # read_lines [] cs else read_lines (c # acc) cs)"

text \<open>
  The lines \<open>readline\<close> returns before the decoder fails: the lines of the text handed
  over so far that are complete. A carriage return at the very end is still held back by
  the newline translation (it may be the first half of a line end), and the line that has
  not met its end is never returned.
\<close>

definition lines_before_failure :: "string \<Rightarrow> string list" where
  "lines_before_failure s =
     filter (\<lambda>line. line \<noteq> [] \<and> last line = CHR 0x0A)
       (read_lines []
          (universal_newlines (if s \<noteq> [] \<and> last s = CHR 0x0D then butlast s else s)))"

text \<open>The loop body: \<open>if line:\<close> guards the \<open>yield\<close> of a message event.\<close>

definition line_events :: "string \<Rightarrow> (nat \<Rightarrow> string) \<Rightarrow> string list \<Rightarrow> snap_event list" where
  "line_events kind clock lines =
     map (\<lambda>(k, line). \<lparr>ev_type = kind, ev_message = Line (strip line),
                        ev_timestamp = Some (clock k), ev_success = None\<rparr>)
       (enumerate 0 (filter (\<lambda>line. line \<noteq> []) lines))"

definition sync_with_progress ::
  "(string \<Rightarrow> process) \<Rightarrow> (nat \<Rightarrow> string) \<Rightarrow> (error + unit) \<times> snap_event list" where
  "sync_with_progress popen clock =
     (case popen (snapraid_bin @ '' sync'') of
        Not_started \<Rightarrow> (Inl (OSError (snapraid_bin @ '' sync'')), [])
      | Undecodable s \<Rightarrow>
          (Inl UnicodeDecodeError, line_events ''sync'' clock (lines_before_failure s))
      | Exited out returncode \<Rightarrow>
          (Inr (),
           line_events ''sync'' clock (read_lines [] (universal_newlines out))
           @ (if returncode = 0
              then [\<lparr>ev_type = ''complete'', ev_message = Msg_sync_ok,
                      ev_timestamp = None, ev_success = Some True\<rparr>]
              else [\<lparr>ev_type = ''error'', ev_message = Msg_sync_failed,
                      ev_timestamp = None, ev_success = Some False\<rparr>])))"

definition scrub_with_progress ::
  "(string \<Rightarrow> process) \<Rightarrow> (nat \<Rightarrow> string) \<Rightarrow> (error + unit) \<times> snap_event list" where
  "scrub_with_progress popen clock =
     (case popen (snapraid_bin @ '' scrub -p 10'') of
        Not_started \<Rightarrow> (Inl (OSError (snapraid_bin @ '' scrub -p 10'')), [])
      | Undecodable s \<Rightarrow>
          (Inl UnicodeDecodeError, line_events ''scrub'' clock (lines_before_failure s))
      | Exited out returncode \<Rightarrow>
          (Inr (),
           line_events ''scrub'' clock (read_lines [] (universal_newlines out))
           @ [\<lparr>ev_type = ''complete'', ev_message = Msg_scrub_done,
                ev_timestamp = None, ev_success = Some (returncode = 0)\<rparr>]))"

section \<open>Sample hosts\<close>

text \<open>
  A host given by a table of command outcomes: a command outside the table completes
  with status 0 and no output, and every file operation succeeds. The closed examples
  below run on such hosts.
\<close>

definition host_with :: "(string \<times> outcome) list \<Rightarrow> env" where
  "host_with table =
     \<lparr>shell = (\<lambda>cmd. case map_of table cmd of Some r \<Rightarrow> r | None \<Rightarrow> Completed 0 []),
      read_file = (\<lambda>p. Some []), makedirs_ok = (\<lambda>p. True), append_ok = (\<lambda>p. True),
      write_ok = (\<lambda>p. True), path_exists = (\<lambda>p. True)\<rparr>"

text \<open>A host whose disk \<open>/dev/nvme0n1\<close> has a file system with a UUID on the whole device.\<close>

definition nvme_host :: env where
  "nvme_host = host_with [(''blkid -s UUID -o value /dev/nvme0n1'', Completed 0 ''1234-ABCD\<newline>'')]"

text \<open>
  A host on which wiping \<open>/dev/sdb\<close> fails with exit status 1 and writing its
  partition table runs into the timeout of \<open>subprocess.run\<close>.
\<close>

definition wipe_fails :: env where
  "wipe_fails = host_with
     [(''wipefs -af /dev/sdb'', Completed 1 []),
      (''parted -s /dev/sdb mklabel gpt'', Raised ''timed out after 30 seconds'')]"

text \<open>
  Hosts for the inventory. On each, \<open>lsblk\<close> lists the disks named, the root file
  system is on \<open>sda\<close>, and the sizes are in bytes: 500 GB, 2 TB and 1 TB on the first;
  1100 GiB and 1120 GiB on the second; a system disk \<open>sda\<close> of 5 GiB beside a disk of
  1 TiB on the third.
\<close>

definition list_cmd :: string where
  "list_cmd = ''lsblk -dn -o NAME,TYPE | grep disk | awk '{print $1}'' @ sq"

definition root_cmd :: string where
  "root_cmd = ''df / | tail -1 | awk '{print $1}' | sed 's/[0-9]*$//' | sed 's|/dev/||'' @ sq"

definition three_disks :: env where
  "three_disks = host_with
     [(list_cmd, Completed 0 ''sdb\<newline>sdc\<newline>sdd\<newline>''),
      (root_cmd, Completed 0 ''sda\<newline>''),
      (''lsblk -bdn -o SIZE /dev/sdb 2>/dev/null'', Completed 0 ''500000000000\<newline>''),
      (''lsblk -bdn -o SIZE /dev/sdc 2>/dev/null'', Completed 0 ''2000000000000\<newline>''),
      (''lsblk -bdn -o SIZE /dev/sdd 2>/dev/null'', Completed 0 ''1000000000000\<newline>'')]"

definition twin_disks :: env where
  "twin_disks = host_with
     [(list_cmd, Completed 0 ''sdb\<newline>sdc\<newline>''),
      (root_cmd, Completed 0 ''sda\<newline>''),
      (''lsblk -bdn -o SIZE /dev/sdb 2>/dev/null'', Completed 0 ''1181116006400\<newline>''),
      (''lsblk -bdn -o SIZE /dev/sdc 2>/dev/null'', Completed 0 ''1202590842880\<newline>'')]"

definition small_system_disk :: env where
  "small_system_disk = host_with
     [(list_cmd, Completed 0 ''sda\<newline>sdb\<newline>''),
      (root_cmd, Completed 0 ''sda\<newline>''),
      (''lsblk -bdn -o SIZE /dev/sda 2>/dev/null'', Completed 0 ''5368709120\<newline>''),
      (''lsblk -bdn -o SIZE /dev/sdb 2>/dev/null'', Completed 0 ''1099511627776\<newline>'')]"

section \<open>Basic facts\<close>

subsection \<open>Traces and sequencing\<close>

lemmas eff_defs = and_then_def notify_def exec_def return_ok_def raise_def

lemmas fs_defs = os_makedirs_def open_read_def open_append_def open_write_def

lemma endswith_one: "endswith d ''1'' = (d \<noteq> [] \<and> last d = CHR ''1'')"
  by (cases d rule: rev_cases) (auto simp: endswith_def)

lemma uuid_path_last: "uuid_path d = (if d \<noteq> [] \<and> last d = CHR ''1'' then d else d @ ''1'')"
  by (simp add: uuid_path_def endswith_one)

lemma makedirs_data_actions: "AppendFile path txt \<notin> set (snd (makedirs_data e ds))"
  by (induction ds) (auto simp: eff_defs os_makedirs_def split: sum.splits)

lemma data_entries_result:
  "data_entries e ds =
     (Inr (map (\<lambda>d. fstab_line (run_command e (''blkid -s UUID -o value '' @ uuid_path (p_disk d)))
                   (''/mnt/disk'' @ show_nat (p_number d))) ds),
      map (\<lambda>d. Run (''blkid -s UUID -o value '' @ uuid_path (p_disk d))) ds)"
  by (induction ds) (simp_all add: eff_defs get_uuid_def)

lemma commands_of_simps [simp]:
  "commands_of [] = []"
  "commands_of (Run cmd # tr) = cmd # commands_of tr"
  "commands_of (Progress x # tr) = commands_of tr"
  "commands_of (MakeDirs p # tr) = commands_of tr"
  "commands_of (ReadFile p # tr) = commands_of tr"
  "commands_of (AppendFile p t # tr) = commands_of tr"
  "commands_of (WriteFile p t # tr) = commands_of tr"
  "commands_of (tr @ tr') = commands_of tr @ commands_of tr'"
  by (simp_all add: commands_of_def)

lemma progress_of_simps [simp]:
  "progress_of [] = []"
  "progress_of (Run cmd # tr) = progress_of tr"
  "progress_of (Progress x # tr) = x # progress_of tr"
  "progress_of (MakeDirs p # tr) = progress_of tr"
  "progress_of (ReadFile p # tr) = progress_of tr"
  "progress_of (AppendFile p t # tr) = progress_of tr"
  "progress_of (WriteFile p t # tr) = progress_of tr"
  "progress_of (tr @ tr') = progress_of tr @ progress_of tr'"
  by (simp_all add: progress_of_def)

lemma prepare_disk_result: "fst (prepare_disk e disk_name label cb) = Inr True"
  by (simp add: prepare_disk_def eff_defs Let_def split: option.splits)

lemma prepare_disk_commands:
  "commands_of (snd (prepare_disk e disk_name label cb)) =
     [''umount /dev/'' @ replace ''/dev/'' [] disk_name @ ''* 2>/dev/null'',
      ''wipefs -af /dev/'' @ replace ''/dev/'' [] disk_name,
      ''dd if=/dev/zero of=/dev/'' @ replace ''/dev/'' [] disk_name @ '' bs=1M count=100 2>/dev/null'',
      ''parted -s /dev/'' @ replace ''/dev/'' [] disk_name @ '' mklabel gpt'',
      ''parted -s /dev/'' @ replace ''/dev/'' [] disk_name @ '' mkpart primary ext4 0% 100%'',
      ''partprobe /dev/'' @ replace ''/dev/'' [] disk_name,
      ''sleep 2'',
      ''mkfs.ext4 -F -L '' @ label @ '' /dev/'' @ replace ''/dev/'' [] disk_name @ ''1'']"
  by (cases cb) (simp_all add: prepare_disk_def eff_defs Let_def)

lemma prepare_disk_progress:
  "progress_of (snd (prepare_disk e disk_name label (Some f))) =
     [f ''preparing'' (Msg_preparing disk_name) (PyInt 0),
      f ''wiping'' Msg_wiping (PyInt 20),
      f ''partitioning'' Msg_partition_table (PyInt 40),
      f ''creating'' Msg_create_partition (PyInt 60),
      f ''formatting'' Msg_formatting (PyInt 80),
      f ''complete'' (Msg_prepared disk_name) (PyInt 100)]"
  by (simp add: prepare_disk_def eff_defs Let_def)

lemma prepare_disk_silent: "progress_of (snd (prepare_disk e disk_name label None)) = []"
  by (simp add: prepare_disk_def eff_defs Let_def)

lemma replace_dev_sdb: "replace ''/dev/'' [] ''/dev/sdb'' = ''sdb''"
  by (simp add: replace_def)

lemma and_then_Inr: "fst m = Inr x \<Longrightarrow> and_then m f = (fst (f x), snd m @ snd (f x))"
  by (simp add: and_then_def)

lemma and_then_Inl: "fst m = Inl err \<Longrightarrow> and_then m f = (Inl err, snd m)"
  by (simp add: and_then_def)

lemma fst_and_then_Inl:
  "(fst (and_then m f) = Inl err) = (fst m = Inl err \<or> (\<exists>x. fst m = Inr x \<and> fst (f x) = Inl err))"
  by (cases "fst m") (auto simp: and_then_def)

lemma notify_result [simp]: "fst (notify cb step msg p) = Inr ()"
  by (simp add: notify_def split: option.splits)

lemma notify_commands [simp]: "commands_of (snd (notify cb step msg p)) = []"
  by (simp add: notify_def split: option.splits)

lemma notify_progress [simp]:
  "progress_of (snd (notify (Some f) step msg p)) = [f step msg p]"
  "progress_of (snd (notify None step msg p)) = []"
  by (simp_all add: notify_def)

lemma prepare_data_result:
  "fst (prepare_data e cb total_steps idx cur ds) =
     Inr (map (\<lambda>(i, d). \<lparr>p_disk = d, p_label = ''disk'' @ show_nat i, p_number = i\<rparr>)
            (enumerate idx ds), cur + length ds)"
proof (induction ds arbitrary: idx cur)
  case Nil
  show ?case by (simp add: return_ok_def)
next
  case (Cons d ds)
  show ?case
    by (simp add: Let_def and_then_Inr [OF notify_result] and_then_Inr [OF prepare_disk_result]
        and_then_Inr [OF Cons.IH] return_ok_def)
qed

subsection \<open>Progress reports of the orchestration\<close>

lemma snd_and_then:
  "snd (and_then m f) = (case fst m of Inl err \<Rightarrow> snd m | Inr x \<Rightarrow> snd m @ snd (f x))"
  by (simp add: and_then_def split: sum.splits)

lemma fst_and_then:
  "fst (and_then m f) = (case fst m of Inl err \<Rightarrow> Inl err | Inr x \<Rightarrow> fst (f x))"
  by (simp add: and_then_def split: sum.splits)

lemma own_percentages_simps [simp]:
  "own_percentages [] = []"
  "own_percentages (xs @ ys) = own_percentages xs @ own_percentages ys"
  by (simp_all add: own_percentages_def)

lemma own_percentages_Cons:
  "own_percentages ((step, msg, p) # xs) =
     (if step \<in> set orchestration_steps then p # own_percentages xs else own_percentages xs)"
  by (simp add: own_percentages_def)

lemma prepare_disk_own [simp]:
  "own_percentages (progress_of (snd (prepare_disk e d l (Some record_call)))) = []"
  by (simp add: prepare_disk_progress record_call_def own_percentages_Cons orchestration_steps_def)

lemma prepare_disk_progress_length [simp]:
  "length (progress_of (snd (prepare_disk e d l (Some f)))) = 6"
  by (simp add: prepare_disk_progress)

lemma prepare_data_trace:
  "snd (prepare_data e cb n idx cur (d # ds)) =
     snd (notify cb ''data'' (Msg_data idx (cur + 1) n) (percent (cur + 1) n))
     @ snd (prepare_disk e d (''disk'' @ show_nat idx) cb)
     @ snd (prepare_data e cb n (idx + 1) (cur + 1) ds)"
  by (simp add: Let_def and_then_Inr [OF notify_result] and_then_Inr [OF prepare_disk_result]
        and_then_Inr [OF prepare_data_result] return_ok_def)

lemma prepare_data_own:
  "own_percentages (progress_of (snd (prepare_data e (Some record_call) n idx cur ds))) =
     map (\<lambda>k. percent k n) [cur + 1 ..< cur + length ds + 1]"
proof (induction ds arbitrary: idx cur)
  case Nil
  show ?case by (simp add: return_ok_def)
next
  case (Cons d ds)
  have "own_percentages (progress_of (snd (prepare_data e (Some record_call) n idx cur (d # ds)))) =
          percent (cur + 1) n
          # own_percentages (progress_of (snd (prepare_data e (Some record_call) n (idx + 1) (cur + 1) ds)))"
    by (simp only: prepare_data_trace progress_of_simps own_percentages_simps
          prepare_disk_own notify_progress)
       (simp add: record_call_def own_percentages_Cons orchestration_steps_def)
  also have "\<dots> = percent (cur + 1) n # map (\<lambda>k. percent k n) [cur + 1 + 1 ..< cur + 1 + length ds + 1]"
    by (simp only: Cons.IH)
  also have "\<dots> = map (\<lambda>k. percent k n) ((cur + 1) # [cur + 1 + 1 ..< cur + 1 + length ds + 1])"
    by simp
  also have "(cur + 1) # [cur + 1 + 1 ..< cur + 1 + length ds + 1] = [cur + 1 ..< cur + length (d # ds) + 1]"
  proof -
    have "[cur + 1 ..< cur + length (d # ds) + 1] = (cur + 1) # [Suc (cur + 1) ..< cur + length (d # ds) + 1]"
      by (rule upt_conv_Cons) simp
    moreover have "Suc (cur + 1) = cur + 1 + 1" by simp
    moreover have "cur + length (d # ds) + 1 = cur + 1 + length ds + 1" by simp
    ultimately show ?thesis by metis
  qed
  finally show ?case .
qed

lemma prepare_data_progress_length:
  "length (progress_of (snd (prepare_data e (Some f) n idx cur ds))) = 7 * length ds"
proof (induction ds arbitrary: idx cur)
  case Nil
  show ?case by (simp add: return_ok_def)
next
  case (Cons d ds)
  show ?case
    by (simp only: prepare_data_trace progress_of_simps length_append Cons.IH
          prepare_disk_progress_length notify_progress) simp
qed

lemma progress_of_runs [simp]: "progress_of (map (\<lambda>d. Run (g d)) ds) = []"
  by (induction ds) simp_all

lemma makedirs_data_progress [simp]: "progress_of (snd (makedirs_data e ds)) = []"
  by (induction ds) (simp_all add: snd_and_then os_makedirs_def return_ok_def raise_def split: sum.splits)

lemma setup_fstab_progress [simp]: "progress_of (snd (setup_fstab e p ds)) = []"
  by (simp add: setup_fstab_def snd_and_then fst_and_then fs_defs exec_def get_uuid_def
      data_entries_result return_ok_def raise_def split: sum.splits option.splits)

lemma setup_mergerfs_progress [simp]: "progress_of (snd (setup_mergerfs e)) = []"
  by (simp add: setup_mergerfs_def snd_and_then fs_defs exec_def return_ok_def raise_def
      split: sum.splits)

lemma setup_snapraid_progress [simp]: "progress_of (snd (setup_snapraid_config e p ds)) = []"
  by (simp add: setup_snapraid_config_def fs_defs raise_def)

lemma setup_manual_progress:
  assumes "fst (setup_manual e parity_disk ds (Some f)) = Inr r"
  shows "progress_of (snd (setup_manual e parity_disk ds (Some f))) =
     f ''parity'' (Msg_parity 1 (1 + length ds + 3)) (percent 1 (1 + length ds + 3))
     # progress_of (snd (prepare_disk e parity_disk ''parity'' (Some f)))
     @ progress_of (snd (prepare_data e (Some f) (1 + length ds + 3) 1 1 ds))
     @ [f ''fstab'' (Msg_fstab (1 + length ds + 1) (1 + length ds + 3)) (percent (1 + length ds + 1) (1 + length ds + 3)),
        f ''mergerfs'' (Msg_mergerfs (1 + length ds + 2) (1 + length ds + 3)) (percent (1 + length ds + 2) (1 + length ds + 3)),
        f ''snapraid'' (Msg_snapraid (1 + length ds + 3) (1 + length ds + 3)) (percent (1 + length ds + 3) (1 + length ds + 3))]"
  using assms
  by (simp add: setup_manual_def Let_def and_then_Inr [OF notify_result]
      and_then_Inr [OF prepare_disk_result] and_then_Inr [OF prepare_data_result]
      snd_and_then fst_and_then return_ok_def split: sum.splits,
      simp add: eval_nat_numeral)

lemma makedirs_data_succeeds:
  "(\<And>p. makedirs_ok e p) \<Longrightarrow> fst (makedirs_data e ds) = Inr ()"
  by (induction ds) (simp_all add: fst_and_then os_makedirs_def return_ok_def)

lemma setup_manual_succeeds:
  assumes "\<And>p. makedirs_ok e p" and "read_file e ''/etc/fstab'' = Some content"
    and "append_ok e ''/etc/fstab''" and "write_ok e ''/etc/snapraid.conf''"
  shows "fst (setup_manual e parity_disk ds cb) =
     Inr \<lparr>r_success = True, r_parity = parity_disk,
          r_data_disks = map (\<lambda>(i, d). \<lparr>p_disk = d, p_label = ''disk'' @ show_nat i, p_number = i\<rparr>)
                           (enumerate 1 ds),
          r_message = Msg_setup_done\<rparr>"
proof -
  have f: "fst (setup_fstab e parity_disk prepared) = Inr ()" for prepared
    using assms
    by (simp add: setup_fstab_def fst_and_then makedirs_data_succeeds fs_defs get_uuid_def
        exec_def data_entries_result return_ok_def)
  have m: "fst (setup_mergerfs e) = Inr ()"
    using assms by (simp add: setup_mergerfs_def fst_and_then fs_defs exec_def return_ok_def)
  have s: "fst (setup_snapraid_config e parity_disk prepared) = Inr ()" for prepared
    using assms by (simp add: setup_snapraid_config_def fs_defs)
  show ?thesis
    by (simp add: setup_manual_def Let_def and_then_Inr [OF notify_result]
        and_then_Inr [OF prepare_disk_result] and_then_Inr [OF prepare_data_result]
        and_then_Inr [OF f] and_then_Inr [OF m] and_then_Inr [OF s] return_ok_def)
qed

lemma upt_orchestration:
  "[1 ..< 1 + m + 3 + 1] = 1 # [1 + 1 ..< 1 + m + 1] @ [1 + m + 1, 1 + m + 2, 1 + m + 3]"
proof -
  have "[1 ..< 1 + m + 3 + 1] = [1 ..< 1 + m + 1] @ [1 + m + 1 ..< 1 + m + 3 + 1]"
    using upt_add_eq_append [of 1 "1 + m + 1" 3] by (simp add: add.assoc)
  moreover have "[1 ..< 1 + m + 1] = 1 # [1 + 1 ..< 1 + m + 1]"
    by (simp add: upt_conv_Cons)
  moreover have "[1 + m + 1 ..< 1 + m + 3 + 1] = [1 + m + 1, 1 + m + 2, 1 + m + 3]"
    by (simp add: upt_conv_Cons)
  ultimately show ?thesis by simp
qed

lemma percent_increasing:
  "0 < n \<Longrightarrow> sorted_wrt (<) (map (\<lambda>k. num_value (percent k n)) [a ..< b])"
proof (induction b)
  case 0
  show ?case by simp
next
  case (Suc b)
  have "of_nat k / (of_nat n :: rat) * 100 < of_nat b / of_nat n * 100" if "k < b" for k
    using that Suc.prems by (simp add: divide_strict_right_mono)
  with Suc show ?case
    by (cases "a \<le> b") (simp_all add: sorted_wrt_append percent_def)
qed

lemma show_nat_small:
  "show_nat (Suc 0) = ''1''" "show_nat (Suc (Suc 0)) = ''2''" "show_nat 1 = ''1''"
  "show_nat 2 = ''2''" "show_nat 3 = ''3''"
  by (simp_all add: show_nat.simps)

lemma quiet_host_setup:
  "fst (setup_manual (host_with []) parity_disk ds cb) =
     Inr \<lparr>r_success = True, r_parity = parity_disk,
          r_data_disks = map (\<lambda>(i, d). \<lparr>p_disk = d, p_label = ''disk'' @ show_nat i, p_number = i\<rparr>)
                           (enumerate 1 ds),
          r_message = Msg_setup_done\<rparr>"
  by (rule setup_manual_succeeds [where content = "[]"]) (simp_all add: host_with_def)

subsection \<open>Substrings and the regular expressions\<close>

text \<open>
  \<open>contains\<close> is the substring test, and a text without any of the three keywords has
  no match; a match at the head of the text is found and the search resumes after it.
\<close>

lemma startswith_iff: "startswith s p = (\<exists>r. s = p @ r)"
  by (induction s p rule: startswith.induct) auto

lemma contains_iff: "contains s p = (\<exists>a b. s = a @ p @ b)"
proof (induction s)
  case Nil
  show ?case by auto
next
  case (Cons c cs)
  show ?case
  proof
    assume "contains (c # cs) p"
    then consider "startswith (c # cs) p" | "contains cs p" by auto
    then show "\<exists>a b. c # cs = a @ p @ b"
    proof cases
      case 1
      then obtain r where "c # cs = p @ r" by (auto simp: startswith_iff)
      then have "c # cs = [] @ p @ r" by simp
      then show ?thesis by blast
    next
      case 2
      with Cons.IH obtain a b where "cs = a @ p @ b" by auto
      then have "c # cs = (c # a) @ p @ b" by simp
      then show ?thesis by blast
    qed
  next
    assume "\<exists>a b. c # cs = a @ p @ b"
    then obtain a b where ab: "c # cs = a @ p @ b" by auto
    show "contains (c # cs) p"
    proof (cases a)
      case Nil
      with ab have "startswith (c # cs) p" by (auto simp: startswith_iff)
      then show ?thesis by simp
    next
      case (Cons a0 a')
      with ab have "cs = a' @ p @ b" by simp
      with Cons.IH have "contains cs p" by auto
      then show ?thesis by simp
    qed
  qed
qed

lemma contains_dropWhile: "contains (dropWhile P s) p \<Longrightarrow> contains s p"
  by (induction s) (auto split: if_splits)

lemma keyword_end_contains:
  "keyword_end s = Some rest \<Longrightarrow>
     contains s ''added'' \<or> contains s ''removed'' \<or> contains s ''updated''"
  by (cases s) (auto simp: keyword_end_def split: if_splits)

lemma match_changes_contains:
  assumes "match_changes s = Some (g, rest)"
  shows "contains s ''added'' \<or> contains s ''removed'' \<or> contains s ''updated''"
proof -
  from assms obtain rest' where "keyword_end (dropWhile is_space (dropWhile is_digit s)) = Some rest'"
    by (auto simp: match_changes_def Let_def split: if_splits option.splits)
  from keyword_end_contains [OF this] show ?thesis
    by (auto dest!: contains_dropWhile)
qed

lemma findall_changes_none:
  "\<not> contains s ''added'' \<Longrightarrow> \<not> contains s ''removed'' \<Longrightarrow> \<not> contains s ''updated''
     \<Longrightarrow> findall_changes s = []"
proof (induction s)
  case Nil
  show ?case by simp
next
  case (Cons c cs)
  from Cons.prems have "match_changes (c # cs) = None"
    using match_changes_contains [of "c # cs"] by (cases "match_changes (c # cs)") auto
  moreover from Cons.prems have "\<not> contains cs ''added''" "\<not> contains cs ''removed''"
      "\<not> contains cs ''updated''"
    by auto
  ultimately show ?case using Cons.IH by simp
qed

lemma space_not_digit: "is_space c \<Longrightarrow> \<not> is_digit c"
  by (auto simp: is_space_def is_digit_def)

lemma keyword_letters: "\<not> is_space CHR ''a''" "\<not> is_space CHR ''r''" "\<not> is_space CHR ''u''"
  by (simp_all add: is_space_def)

lemma match_changes_occurrence:
  assumes ds: "ds \<noteq> []" "list_all is_digit ds" and ws: "ws \<noteq> []" "list_all is_space ws"
    and kw: "kw = ''added'' \<or> kw = ''removed'' \<or> kw = ''updated''"
  shows "match_changes (ds @ ws @ kw @ rest) = Some (ds, rest)"
proof -
  from ws obtain w ws' where w: "ws = w # ws'" "is_space w" by (cases ws) auto
  from kw keyword_letters obtain k kw' where k: "kw = k # kw'" "\<not> is_space k"
    by blast
  have t1: "takeWhile is_digit (ds @ ws @ kw @ rest) = ds"
    using ds w by (simp add: takeWhile_tail space_not_digit list_all_iff)
  have d1: "dropWhile is_digit (ds @ ws @ kw @ rest) = ws @ kw @ rest"
    using ds w by (simp add: space_not_digit list_all_iff dropWhile_append2)
  have t2: "takeWhile is_space (ws @ kw @ rest) = ws"
    using ws k by (simp add: takeWhile_tail list_all_iff)
  have d2: "dropWhile is_space (ws @ kw @ rest) = kw @ rest"
    using ws k by (simp add: list_all_iff dropWhile_append2)
  have "keyword_end (kw @ rest) = Some rest"
    using kw by (auto simp: keyword_end_def)
  with t1 d1 t2 d2 ds ws show ?thesis
    by (simp add: match_changes_def Let_def)
qed

lemma findall_changes_occurrence:
  assumes "ds \<noteq> []" "list_all is_digit ds" "ws \<noteq> []" "list_all is_space ws"
    and "kw = ''added'' \<or> kw = ''removed'' \<or> kw = ''updated''"
  shows "findall_changes (ds @ ws @ kw @ rest) = ds # findall_changes rest"
proof -
  from assms(1) obtain d ds' where "ds = d # ds'" by (cases ds) auto
  then have "findall_changes (ds @ ws @ kw @ rest) =
      (case match_changes (ds @ ws @ kw @ rest) of
         Some (g, r) \<Rightarrow> g # findall_changes r
       | None \<Rightarrow> findall_changes (ds' @ ws @ kw @ rest))"
    by simp
  with match_changes_occurrence [OF assms] show ?thesis by simp
qed

lemmas status_defs = interpret_output_def initial_status_def match_changes_def keyword_end_def
  match_files_def is_digit_def is_space_def digits_value_def digit_val_def

subsection \<open>Lines of the process output\<close>

lemma read_lines_nonempty: "[] \<notin> set (read_lines acc s)"
  by (induction s arbitrary: acc) auto

lemma read_lines_concat: "concat (read_lines acc s) = rev acc @ s"
  by (induction s arbitrary: acc) auto

lemma read_lines_no_blank: "filter (\<lambda>line. line \<noteq> []) (read_lines acc s) = read_lines acc s"
  using read_lines_nonempty [of acc s] by (simp add: filter_id_conv) metis

lemma lines_before_failure_nonempty: "[] \<notin> set (lines_before_failure s)"
  by (simp add: lines_before_failure_def)

lemma map_enumerate_snd: "map (\<lambda>p. g (snd p)) (enumerate n xs) = map g xs"
proof -
  have "map (\<lambda>p. g (snd p)) (enumerate n xs) = map (g \<circ> snd) (enumerate n xs)"
    by (simp only: comp_def)
  also have "\<dots> = map g (map snd (enumerate n xs))"
    by (simp only: map_map)
  also have "\<dots> = map g xs"
    by (simp only: map_snd_enumerate)
  finally show ?thesis .
qed

lemma map_enumerate_fst: "map (\<lambda>p. h (fst p)) (enumerate n xs) = map h [n ..< n + length xs]"
proof -
  have "map (\<lambda>p. h (fst p)) (enumerate n xs) = map (h \<circ> fst) (enumerate n xs)"
    by (simp only: comp_def)
  also have "\<dots> = map h (map fst (enumerate n xs))"
    by (simp only: map_map)
  also have "\<dots> = map h [n ..< n + length xs]"
    by (simp only: map_fst_enumerate)
  finally show ?thesis .
qed

lemma map_enumerate_const: "map (\<lambda>p. c) (enumerate n xs) = replicate (length xs) c"
  by (simp add: map_replicate_const)

lemma line_events_fields:
  assumes "[] \<notin> set ls"
  shows "map ev_message (line_events kind clock ls) = map (\<lambda>line. Line (strip line)) ls"
    and "map ev_type (line_events kind clock ls) = replicate (length ls) kind"
    and "map ev_timestamp (line_events kind clock ls) = map (\<lambda>k. Some (clock k)) [0 ..< length ls]"
    and "map ev_success (line_events kind clock ls) = replicate (length ls) None"
    and "length (line_events kind clock ls) = length ls"
proof -
  from assms have f: "filter (\<lambda>line. line \<noteq> []) ls = ls"
    by (simp add: filter_id_conv) metis
  show "map ev_message (line_events kind clock ls) = map (\<lambda>line. Line (strip line)) ls"
    using map_enumerate_snd [of "\<lambda>line. Line (strip line)" 0 ls]
    by (simp add: line_events_def f comp_def case_prod_unfold)
  show "map ev_type (line_events kind clock ls) = replicate (length ls) kind"
    by (simp add: line_events_def f comp_def case_prod_unfold map_enumerate_const)
  show "map ev_timestamp (line_events kind clock ls) = map (\<lambda>k. Some (clock k)) [0 ..< length ls]"
    using map_enumerate_fst [of "\<lambda>k. Some (clock k)" 0 ls]
    by (simp add: line_events_def f comp_def case_prod_unfold)
  show "map ev_success (line_events kind clock ls) = replicate (length ls) None"
    by (simp add: line_events_def f comp_def case_prod_unfold map_enumerate_const)
  show "length (line_events kind clock ls) = length ls"
    by (simp add: line_events_def f)
qed

subsection \<open>The inventory loop and the descending sort\<close>

lemma classify_loop_lists:
  "classify_loop e sys (av, ex) ds =
     (av @ map (collect_info e) (filter (\<lambda>d. d \<noteq> [] \<and> excluded_reason e sys d = None) ds),
      ex @ map (\<lambda>d. (collect_info e d)\<lparr>d_reason := excluded_reason e sys d\<rparr>)
             (filter (\<lambda>d. d \<noteq> [] \<and> excluded_reason e sys d \<noteq> None) ds))"
  by (induction ds arbitrary: av ex) (auto split: option.splits)

lemma detect_available:
  "det_available (detect_all_disks e) =
     sort_desc (\<lambda>x. parse_size (d_size x))
       (map (collect_info e)
          (filter (\<lambda>d. d \<noteq> [] \<and> excluded_reason e (get_system_disk e) d = None) (all_disks e)))"
  by (simp add: detect_all_disks_def Let_def classify_loop_lists)

lemma detect_excluded:
  "det_excluded (detect_all_disks e) =
     map (\<lambda>d. (collect_info e d)\<lparr>d_reason := excluded_reason e (get_system_disk e) d\<rparr>)
       (filter (\<lambda>d. d \<noteq> [] \<and> excluded_reason e (get_system_disk e) d \<noteq> None) (all_disks e))"
  by (simp add: detect_all_disks_def Let_def classify_loop_lists)

lemma set_sort_desc [simp]: "set (sort_desc k xs) = set xs"
  by (simp add: sort_desc_def)

lemma length_sort_desc [simp]: "length (sort_desc k xs) = length xs"
  by (simp add: sort_desc_def)

lemma sort_desc_sorted: "sorted_wrt (\<lambda>a b. k b \<le> k a) (sort_desc k xs)"
proof -
  have "sorted (map k (sort_key k (rev xs)))" by simp
  then have "sorted_wrt (\<lambda>a b. k a \<le> k b) (sort_key k (rev xs))"
    by (simp add: sorted_map)
  then show ?thesis
    by (simp add: sort_desc_def sorted_wrt_rev)
qed

lemma sort_desc_stable: "filter (\<lambda>x. k x = c) (sort_desc k xs) = filter (\<lambda>x. k x = c) xs"
proof -
  have "filter (\<lambda>x. k x = c) (sort_key k (rev xs)) = filter (\<lambda>x. k x = c) (rev xs)"
    by (rule sort_key_stable)
  then have "rev (filter (\<lambda>x. k x = c) (sort_key k (rev xs))) = filter (\<lambda>x. k x = c) xs"
    by (simp add: rev_filter)
  then show ?thesis by (simp add: sort_desc_def rev_filter)
qed

lemma excluded_reason_lowest:
  assumes "1 \<le> k" "k \<le> 5" "spec_rule_matches e sys d k"
    and "\<forall>j. 1 \<le> j \<and> j < k \<longrightarrow> \<not> spec_rule_matches e sys d j"
  shows "excluded_reason e sys d = Some (spec_rule_reason k)"
proof -
  from assms(1,2) consider "k = 1" | "k = 2" | "k = 3" | "k = 4" | "k = 5" by linarith
  then show ?thesis
  proof cases
    case 1
    with assms(3) show ?thesis
      by (simp add: spec_rule_matches_def spec_rule_reason_def excluded_reason_def)
  next
    case 2
    with assms(4) have "\<not> spec_rule_matches e sys d 1" by simp
    with 2 assms(3) show ?thesis
      by (simp add: spec_rule_matches_def spec_rule_reason_def excluded_reason_def)
  next
    case 3
    with assms(4) have "\<not> spec_rule_matches e sys d 1" "\<not> spec_rule_matches e sys d 2" by simp_all
    with 3 assms(3) show ?thesis
      by (simp add: spec_rule_matches_def spec_rule_reason_def excluded_reason_def)
  next
    case 4
    with assms(4) have "\<not> spec_rule_matches e sys d 1" "\<not> spec_rule_matches e sys d 2"
        "\<not> spec_rule_matches e sys d 3" by simp_all
    with 4 assms(3) show ?thesis
      by (simp add: spec_rule_matches_def spec_rule_reason_def excluded_reason_def)
  next
    case 5
    with assms(4) have "\<not> spec_rule_matches e sys d 1" "\<not> spec_rule_matches e sys d 2"
        "\<not> spec_rule_matches e sys d 3" "\<not> spec_rule_matches e sys d 4" by simp_all
    with 5 assms(3) show ?thesis
      by (simp add: spec_rule_matches_def spec_rule_reason_def excluded_reason_def)
  qed
qed

lemma excluded_reason_none:
  assumes "\<forall>k. \<not> spec_rule_matches e sys d k"
  shows "excluded_reason e sys d = None"
proof -
  from assms have "\<not> spec_rule_matches e sys d 1" "\<not> spec_rule_matches e sys d 2"
    "\<not> spec_rule_matches e sys d 3" "\<not> spec_rule_matches e sys d 4" "\<not> spec_rule_matches e sys d 5"
    by blast+
  then show ?thesis
    by (simp add: spec_rule_matches_def excluded_reason_def)
qed

lemma collect_info_name [simp]: "d_name (collect_info e d) = ''/dev/'' @ d"
  by (simp add: collect_info_def)

subsection \<open>Rounding to the nearest double\<close>

text \<open>
  \<open>round_half_even\<close> between two bounds, the binade of a number at least 1, and
  \<open>round_double\<close> of a number in the normal range as one rounding of its significand.
\<close>

lemma round_half_even_down:
  "of_nat n \<le> y \<Longrightarrow> y < of_nat n + 1 / 2 \<Longrightarrow> round_half_even y = n"
proof -
  assume a: "of_nat n \<le> y" "y < of_nat n + 1 / 2"
  have "\<lfloor>y\<rfloor> = int n"
    by (rule floor_unique) (use a in auto)
  with a show ?thesis by (simp add: round_half_even_def Let_def)
qed

lemma round_half_even_up:
  "of_nat n + 1 / 2 < y \<Longrightarrow> y < of_nat n + 1 \<Longrightarrow> round_half_even y = n + 1"
proof -
  assume a: "of_nat n + 1 / 2 < y" "y < of_nat n + 1"
  have "\<lfloor>y\<rfloor> = int n"
    by (rule floor_unique) (use a in auto)
  with a show ?thesis by (simp add: round_half_even_def Let_def)
qed

lemma round_half_even_exact: "round_half_even (of_nat n) = n"
  by (rule round_half_even_down) simp_all

lemma binade_up:
  "0 < u \<Longrightarrow> u * 2 ^ k \<le> x \<Longrightarrow> x < u * 2 ^ Suc k \<Longrightarrow> k \<le> fuel \<Longrightarrow> binade fuel x u = u * 2 ^ k"
proof (induction fuel arbitrary: u k)
  case 0
  then show ?case by simp
next
  case (Suc fuel)
  show ?case
  proof (cases k)
    case 0
    with Suc.prems show ?thesis by simp
  next
    case (Suc k')
    with Suc.prems have up: "2 * u \<le> x"
    proof -
      have "2 * u \<le> u * 2 ^ k" using Suc Suc.prems(1)
        by (simp add: mult.commute)
      with Suc.prems(2) show ?thesis by linarith
    qed
    have "binade fuel x (2 * u) = (2 * u) * 2 ^ k'"
      using Suc.prems Suc by (intro Suc.IH) (simp_all add: mult.assoc mult.left_commute)
    with up Suc show ?thesis by (simp add: mult.assoc mult.left_commute)
  qed
qed

lemma round_half_even_le: "0 \<le> y \<Longrightarrow> y \<le> of_nat n \<Longrightarrow> round_half_even y \<le> n"
proof -
  assume y: "0 \<le> y" "y \<le> of_nat n"
  define f where "f = nat \<lfloor>y\<rfloor>"
  from y have f: "of_nat f \<le> y" by (simp add: f_def)
  with y have fn: "f \<le> n"
    by (metis (no_types) of_nat_le_iff order_trans)
  show ?thesis
  proof (cases "y - of_nat f < 1 / 2")
    case True
    with fn show ?thesis by (simp add: round_half_even_def Let_def f_def)
  next
    case False
    then have "of_nat f < y" by simp
    with y have "(of_nat f :: rat) < of_nat n" by linarith
    then have "f < n" by simp
    then show ?thesis by (simp add: round_half_even_def Let_def f_def)
  qed
qed

lemma round_double_normal:
  assumes x: "2 ^ k \<le> x" "x < 2 ^ Suc k" and k: "k \<le> 1022"
    and m: "round_half_even (x / (2 ^ k / 2 ^ 52)) = m"
  shows "round_double x = of_nat m * (2 ^ k / 2 ^ 52)"
proof -
  have one: "(1::rat) \<le> 2 ^ k" by simp
  with x have pos: "0 < x" by linarith
  have b: "binade 1100 x 1 = 1 * 2 ^ k"
    using x k by (intro binade_up) simp_all
  have "(1::rat) / 2 ^ 1022 \<le> 1" by simp
  with one have mx: "max (2 ^ k) (1 / 2 ^ 1022 :: rat) = 2 ^ k" by linarith
  have "x / (2 ^ k / 2 ^ 52) \<le> of_nat (2 ^ 53)"
  proof -
    have q: "x / 2 ^ k \<le> 2" using x by (simp add: divide_le_eq)
    have "x / (2 ^ k / 2 ^ 52) = (x / 2 ^ k) * 2 ^ 52" by simp
    also have "\<dots> \<le> 2 * 2 ^ 52" using q by (rule mult_right_mono) simp
    also have "\<dots> = of_nat (2 ^ 53)" by simp
    finally show ?thesis .
  qed
  moreover have "0 \<le> x / (2 ^ k / 2 ^ 52)" using pos by simp
  ultimately have "round_half_even (x / (2 ^ k / 2 ^ 52)) \<le> 2 ^ 53"
    by (rule round_half_even_le [rotated])
  with m have "m \<le> 2 ^ 53" by simp
  then have "(of_nat m :: rat) \<le> 2 ^ 53"
    by (metis (no_types) of_nat_le_iff of_nat_numeral of_nat_power)
  then have "of_nat m * (2 ^ k / 2 ^ 52 :: rat) \<le> 2 ^ 53 * (2 ^ k / 2 ^ 52)"
    by (intro mult_right_mono) simp_all
  also have "\<dots> = 2 ^ Suc k" by simp
  also have "\<dots> < (2 ^ 1024 :: rat)"
    using k by (intro power_strict_increasing) simp_all
  finally have small: "\<not> (2 ^ 1024 :: rat) \<le> of_nat m * (2 ^ k / 2 ^ 52)" by simp
  from pos b mx m small show ?thesis
    by (simp add: round_double_def Let_def)
qed

subsection \<open>Doubles of the sample hosts\<close>

lemma rd_1100: "round_double 1100 = 1100"
proof -
  have "round_half_even ((1100 :: rat) / (2 ^ 10 / 2 ^ 52)) = 4837851162214400"
    by (rule round_half_even_down) simp_all
  from round_double_normal [of 10 "1100", OF _ _ _ this] show ?thesis by simp
qed

lemma rd_1120: "round_double 1120 = 1120"
proof -
  have "round_half_even ((1120 :: rat) / (2 ^ 10 / 2 ^ 52)) = 4925812092436480"
    by (rule round_half_even_down) simp_all
  from round_double_normal [of 10 "1120", OF _ _ _ this] show ?thesis by simp
qed

lemma rd_11_10: "round_double (11 / 10) = 2476979795053773 / 2251799813685248"
proof -
  have "round_half_even ((11 / 10 :: rat) / (2 ^ 0 / 2 ^ 52)) = 4953959590107545 + 1"
    by (rule round_half_even_up) simp_all
  from round_double_normal [of 0 "11 / 10", OF _ _ _ this] show ?thesis by simp
qed

lemma rd_28_25: "round_double (28 / 25) = 1261007895663739 / 1125899906842624"
proof -
  have "round_half_even ((28 / 25 :: rat) / (2 ^ 0 / 2 ^ 52)) = 5044031582654955 + 1"
    by (rule round_half_even_up) simp_all
  from round_double_normal [of 0 "28 / 25", OF _ _ _ this] show ?thesis by simp
qed

lemma fmt1_11_10: "fmt1 (2476979795053773 / 2251799813685248) = ''1.1''"
proof -
  have r: "round_half_even (\<bar>2476979795053773 / 2251799813685248\<bar> * 10 :: rat) = 11"
    by (rule round_half_even_down) simp_all
  show ?thesis
    by (simp only: fmt1_def Let_def r) (simp add: show_nat.simps)
qed

lemma fmt1_28_25: "fmt1 (1261007895663739 / 1125899906842624) = ''1.1''"
proof -
  have r: "round_half_even (\<bar>1261007895663739 / 1125899906842624\<bar> * 10 :: rat) = 11"
    by (rule round_half_even_down) simp_all
  show ?thesis
    by (simp only: fmt1_def Let_def r) (simp add: show_nat.simps)
qed

lemma rd_11_10_kilo: "round_double (2476979795053773 / 2251799813685248 * 1000) = 1100"
proof -
  have "round_half_even ((2476979795053773 / 2251799813685248 * 1000 :: rat) / (2 ^ 10 / 2 ^ 52)) = 4837851162214400"
    by (rule round_half_even_down) simp_all
  from round_double_normal [of 10 "2476979795053773 / 2251799813685248 * 1000", OF _ _ _ this] show ?thesis by simp
qed

lemma rd_5: "round_double 5 = 5"
proof -
  have "round_half_even ((5 :: rat) / (2 ^ 2 / 2 ^ 52)) = 5629499534213120"
    by (rule round_half_even_down) simp_all
  from round_double_normal [of 2 "5", OF _ _ _ this] show ?thesis by simp
qed

lemma rd_1024: "round_double 1024 = 1024"
proof -
  have "round_half_even ((1024 :: rat) / (2 ^ 10 / 2 ^ 52)) = 4503599627370496"
    by (rule round_half_even_down) simp_all
  from round_double_normal [of 10 "1024", OF _ _ _ this] show ?thesis by simp
qed

lemma rd_500GB: "round_double (244140625 / 524288) = 244140625 / 524288"
proof -
  have "round_half_even ((244140625 / 524288 :: rat) / (2 ^ 8 / 2 ^ 52)) = 8192000000000000"
    by (rule round_half_even_down) simp_all
  from round_double_normal [of 8 "244140625 / 524288", OF _ _ _ this] show ?thesis by simp
qed

lemma rd_2TB: "round_double (244140625 / 131072) = 244140625 / 131072"
proof -
  have "round_half_even ((244140625 / 131072 :: rat) / (2 ^ 10 / 2 ^ 52)) = 8192000000000000"
    by (rule round_half_even_down) simp_all
  from round_double_normal [of 10 "244140625 / 131072", OF _ _ _ this] show ?thesis by simp
qed

lemma rd_1TB: "round_double (244140625 / 262144) = 244140625 / 262144"
proof -
  have "round_half_even ((244140625 / 262144 :: rat) / (2 ^ 9 / 2 ^ 52)) = 8192000000000000"
    by (rule round_half_even_down) simp_all
  from round_double_normal [of 9 "244140625 / 262144", OF _ _ _ this] show ?thesis by simp
qed

lemma rd_2TB_kilo: "round_double (1953125 / 1048576) = 1953125 / 1048576"
proof -
  have "round_half_even ((1953125 / 1048576 :: rat) / (2 ^ 0 / 2 ^ 52)) = 8388608000000000"
    by (rule round_half_even_down) simp_all
  from round_double_normal [of 0 "1953125 / 1048576", OF _ _ _ this] show ?thesis by simp
qed

lemma fmt1_500GB: "fmt1 (244140625 / 524288) = ''465.7''"
proof -
  have r: "round_half_even (\<bar>244140625 / 524288\<bar> * 10 :: rat) = 4656 + 1"
    by (rule round_half_even_up) simp_all
  show ?thesis
    by (simp only: fmt1_def Let_def r) (simp add: show_nat.simps)
qed

lemma fmt1_2TB: "fmt1 (1953125 / 1048576) = ''1.9''"
proof -
  have r: "round_half_even (\<bar>1953125 / 1048576\<bar> * 10 :: rat) = 18 + 1"
    by (rule round_half_even_up) simp_all
  show ?thesis
    by (simp only: fmt1_def Let_def r) (simp add: show_nat.simps)
qed

lemma fmt1_1TB: "fmt1 (244140625 / 262144) = ''931.3''"
proof -
  have r: "round_half_even (\<bar>244140625 / 262144\<bar> * 10 :: rat) = 9313"
    by (rule round_half_even_down) simp_all
  show ?thesis
    by (simp only: fmt1_def Let_def r) (simp add: show_nat.simps)
qed

lemma rd_4657_10: "round_double (4657 / 10) = 8192681040884531 / 17592186044416"
proof -
  have "round_half_even ((4657 / 10 :: rat) / (2 ^ 8 / 2 ^ 52)) = 8192681040884531"
    by (rule round_half_even_down) simp_all
  from round_double_normal [of 8 "4657 / 10", OF _ _ _ this] show ?thesis by simp
qed

lemma rd_9313_10: "round_double (9313 / 10) = 4095900715791155 / 4398046511104"
proof -
  have "round_half_even ((9313 / 10 :: rat) / (2 ^ 9 / 2 ^ 52)) = 8191801431582310"
    by (rule round_half_even_down) simp_all
  from round_double_normal [of 9 "9313 / 10", OF _ _ _ this] show ?thesis by simp
qed

lemma rd_19_10: "round_double (19 / 10) = 4278419646001971 / 2251799813685248"
proof -
  have "round_half_even ((19 / 10 :: rat) / (2 ^ 0 / 2 ^ 52)) = 8556839292003942"
    by (rule round_half_even_down) simp_all
  from round_double_normal [of 0 "19 / 10", OF _ _ _ this] show ?thesis by simp
qed

lemma rd_19_10_kilo: "round_double (4278419646001971 / 2251799813685248 * 1000) = 1900"
proof -
  have "round_half_even ((4278419646001971 / 2251799813685248 * 1000 :: rat) / (2 ^ 10 / 2 ^ 52)) = 8356288371097599 + 1"
    by (rule round_half_even_up) simp_all
  from round_double_normal [of 10 "4278419646001971 / 2251799813685248 * 1000", OF _ _ _ this] show ?thesis by simp
qed

lemma rd_21_20: "round_double (21 / 20) = 4728779608739021 / 4503599627370496"
proof -
  have "round_half_even ((21 / 20 :: rat) / (2 ^ 0 / 2 ^ 52)) = 4728779608739020 + 1"
    by (rule round_half_even_up) simp_all
  from round_double_normal [of 0 "21 / 20", OF _ _ _ this] show ?thesis by simp
qed

lemma fmt1_21_20: "fmt1 (4728779608739021 / 4503599627370496) = ''1.1''"
proof -
  have r: "round_half_even (\<bar>4728779608739021 / 4503599627370496\<bar> * 10 :: rat) = 10 + 1"
    by (rule round_half_even_up) simp_all
  show ?thesis
    by (simp only: fmt1_def Let_def r) (simp add: show_nat.simps)
qed

lemma rd_23_20: "round_double (23 / 20) = 2589569785738035 / 2251799813685248"
proof -
  have "round_half_even ((23 / 20 :: rat) / (2 ^ 0 / 2 ^ 52)) = 5179139571476070"
    by (rule round_half_even_down) simp_all
  from round_double_normal [of 0 "23 / 20", OF _ _ _ this] show ?thesis by simp
qed

lemma fmt1_23_20: "fmt1 (2589569785738035 / 2251799813685248) = ''1.1''"
proof -
  have r: "round_half_even (\<bar>2589569785738035 / 2251799813685248\<bar> * 10 :: rat) = 11"
    by (rule round_half_even_down) simp_all
  show ?thesis
    by (simp only: fmt1_def Let_def r) (simp add: show_nat.simps)
qed

lemma rd_37_20: "round_double (37 / 20) = 4165829655317709 / 2251799813685248"
proof -
  have "round_half_even ((37 / 20 :: rat) / (2 ^ 0 / 2 ^ 52)) = 8331659310635417 + 1"
    by (rule round_half_even_up) simp_all
  from round_double_normal [of 0 "37 / 20", OF _ _ _ this] show ?thesis by simp
qed

lemma fmt1_37_20: "fmt1 (4165829655317709 / 2251799813685248) = ''1.9''"
proof -
  have r: "round_half_even (\<bar>4165829655317709 / 2251799813685248\<bar> * 10 :: rat) = 18 + 1"
    by (rule round_half_even_up) simp_all
  show ?thesis
    by (simp only: fmt1_def Let_def r) (simp add: show_nat.simps)
qed

lemma rd_39_20: "round_double (39 / 20) = 8782019273372467 / 4503599627370496"
proof -
  have "round_half_even ((39 / 20 :: rat) / (2 ^ 0 / 2 ^ 52)) = 8782019273372467"
    by (rule round_half_even_down) simp_all
  from round_double_normal [of 0 "39 / 20", OF _ _ _ this] show ?thesis by simp
qed

lemma fmt1_39_20: "fmt1 (8782019273372467 / 4503599627370496) = ''1.9''"
proof -
  have r: "round_half_even (\<bar>8782019273372467 / 4503599627370496\<bar> * 10 :: rat) = 19"
    by (rule round_half_even_down) simp_all
  show ?thesis
    by (simp only: fmt1_def Let_def r) (simp add: show_nat.simps)
qed

lemma format_size_halves:
  "format_size 1050 = ''1.1 TB''"
  "format_size 1150 = ''1.1 TB''"
  "format_size 1850 = ''1.9 TB''"
  "format_size 1950 = ''1.9 TB''"
  by (simp_all add: format_size_def rd_21_20 fmt1_21_20 rd_23_20 fmt1_23_20 rd_37_20 fmt1_37_20 rd_39_20 fmt1_39_20)

subsection \<open>The sample hosts evaluated\<close>

lemmas host_defs = host_with_def list_cmd_def root_cmd_def sq_def
lemmas text_defs = strip_def is_space_def is_digit_def digits_value_def digit_val_def
lemmas size_defs = get_disk_size_gb_def run_command_def py_int_def Let_def

lemma twin_sizes:
  "get_disk_size_gb twin_disks ''sdb'' = 1100" "get_disk_size_gb twin_disks ''sdc'' = 1120"
  by (simp_all add: twin_disks_def host_defs size_defs text_defs rd_1100 rd_1120)

lemma fmt_1100: "format_size 1100 = ''1.1 TB''"
  by (simp add: format_size_def rd_11_10 fmt1_11_10)

lemma fmt_1120: "format_size 1120 = ''1.1 TB''"
  by (simp add: format_size_def rd_28_25 fmt1_28_25)

lemmas parse_defs = first_num_run_def py_float_def is_num_char_def is_digit_def
  digits_value_def digit_val_def Let_def

lemma py_float_11: "py_float ''1.1'' = Some (2476979795053773 / 2251799813685248)"
  by (simp add: parse_defs rd_11_10)

lemma parse_11: "parse_size ''1.1 TB'' = 1100"
proof -
  have f: "first_num_run ''1.1 TB'' = Some ''1.1''"
    by (simp add: parse_defs)
  have c: "contains ''1.1 TB'' ''TB''"
    by simp
  show ?thesis
    by (simp only: parse_size_def f py_float_11 c rd_11_10_kilo option.case if_True)
qed

lemmas rule_defs = excluded_reason_def excluded_types_def min_size_gb_def is_usb_disk_def
  is_system_mount_def lower_def

lemma twin_inventory:
  "all_disks twin_disks = [''sdb'', ''sdc'']" "get_system_disk twin_disks = ''sda''"
  by (simp_all add: all_disks_def get_system_disk_def split_nl_def run_command_def twin_disks_def
      host_defs text_defs Let_def)

lemma twin_reasons:
  "excluded_reason twin_disks ''sda'' ''sdb'' = None"
  "excluded_reason twin_disks ''sda'' ''sdc'' = None"
  by (simp_all add: rule_defs twin_sizes)
     (simp_all add: run_command_def twin_disks_def host_defs text_defs)

lemma collect_info_size [simp]: "d_size (collect_info e d) = format_size (get_disk_size_gb e d)"
  by (simp add: collect_info_def)

lemma small_inventory:
  "all_disks small_system_disk = [''sda'', ''sdb'']" "get_system_disk small_system_disk = ''sda''"
  by (simp_all add: all_disks_def get_system_disk_def split_nl_def run_command_def
      small_system_disk_def host_defs text_defs Let_def)

lemma small_sizes:
  "get_disk_size_gb small_system_disk ''sda'' = 5"
  "get_disk_size_gb small_system_disk ''sdb'' = 1024"
  by (simp_all add: small_system_disk_def host_defs size_defs text_defs rd_5 rd_1024)

lemma small_rules:
  "spec_rule_matches small_system_disk ''sda'' ''sda'' 2"
  "spec_rule_matches small_system_disk ''sda'' ''sda'' 4"
  "\<not> spec_rule_matches small_system_disk ''sda'' ''sda'' 1"
  "\<not> spec_rule_matches small_system_disk ''sda'' ''sdb'' j"
proof -
  show "spec_rule_matches small_system_disk ''sda'' ''sda'' 2"
    by (simp add: spec_rule_matches_def)
  show "spec_rule_matches small_system_disk ''sda'' ''sda'' 4"
    by (simp add: spec_rule_matches_def small_sizes min_size_gb_def)
  show "\<not> spec_rule_matches small_system_disk ''sda'' ''sda'' 1"
    by (simp add: spec_rule_matches_def excluded_types_def)
  have u: "\<not> is_usb_disk small_system_disk ''sdb''" "\<not> is_system_mount small_system_disk ''sdb''"
    by (simp_all add: is_usb_disk_def is_system_mount_def lower_def run_command_def
        small_system_disk_def host_defs text_defs)
  show "\<not> spec_rule_matches small_system_disk ''sda'' ''sdb'' j"
    by (simp add: spec_rule_matches_def excluded_types_def small_sizes min_size_gb_def u)
qed

lemma three_sizes:
  "get_disk_size_gb three_disks ''sdb'' = 244140625 / 524288"
  "get_disk_size_gb three_disks ''sdc'' = 244140625 / 131072"
  "get_disk_size_gb three_disks ''sdd'' = 244140625 / 262144"
  by (simp_all add: three_disks_def host_defs size_defs text_defs rd_500GB rd_2TB rd_1TB)

lemma three_displayed:
  "format_size (244140625 / 524288) = ''465.7 GB''"
  "format_size (244140625 / 131072) = ''1.9 TB''"
  "format_size (244140625 / 262144) = ''931.3 GB''"
  by (simp_all add: format_size_def rd_2TB_kilo fmt1_500GB fmt1_2TB fmt1_1TB)

lemma py_float_three:
  "py_float ''465.7'' = Some (8192681040884531 / 17592186044416)"
  "py_float ''1.9'' = Some (4278419646001971 / 2251799813685248)"
  "py_float ''931.3'' = Some (4095900715791155 / 4398046511104)"
  by (simp_all add: parse_defs rd_4657_10 rd_19_10 rd_9313_10)

lemma parse_three:
  "parse_size ''465.7 GB'' = 8192681040884531 / 17592186044416"
  "parse_size ''1.9 TB'' = 1900"
  "parse_size ''931.3 GB'' = 4095900715791155 / 4398046511104"
proof -
  have f: "first_num_run ''465.7 GB'' = Some ''465.7''" "first_num_run ''1.9 TB'' = Some ''1.9''"
      "first_num_run ''931.3 GB'' = Some ''931.3''"
    by (simp_all add: parse_defs)
  have c: "\<not> contains ''465.7 GB'' ''TB''" "contains ''1.9 TB'' ''TB''"
      "\<not> contains ''931.3 GB'' ''TB''"
    by simp_all
  show "parse_size ''465.7 GB'' = 8192681040884531 / 17592186044416"
    by (simp only: parse_size_def f py_float_three c option.case if_False)
  show "parse_size ''1.9 TB'' = 1900"
    by (simp only: parse_size_def f py_float_three c rd_19_10_kilo option.case if_True)
  show "parse_size ''931.3 GB'' = 4095900715791155 / 4398046511104"
    by (simp only: parse_size_def f py_float_three c option.case if_False)
qed

lemma three_inventory:
  "all_disks three_disks = [''sdb'', ''sdc'', ''sdd'']" "get_system_disk three_disks = ''sda''"
  by (simp_all add: all_disks_def get_system_disk_def split_nl_def run_command_def three_disks_def
      host_defs text_defs Let_def)

lemma three_reasons:
  "excluded_reason three_disks ''sda'' ''sdb'' = None"
  "excluded_reason three_disks ''sda'' ''sdc'' = None"
  "excluded_reason three_disks ''sda'' ''sdd'' = None"
  by (simp_all add: rule_defs three_sizes)
     (simp_all add: run_command_def three_disks_def host_defs text_defs)

lemma three_disks_available:
  "map d_name (det_available (detect_all_disks three_disks)) =
     [''/dev/sdc'', ''/dev/sdd'', ''/dev/sdb'']"
  "map d_size (det_available (detect_all_disks three_disks)) =
     [''1.9 TB'', ''931.3 GB'', ''465.7 GB'']"
  by (simp_all add: detect_available three_inventory three_reasons sort_desc_def sort_key_def
      three_sizes three_displayed parse_three)

lemma available_sort_key:
  "sorted_wrt (\<lambda>a b. parse_size (d_size b) \<le> parse_size (d_size a))
       (det_available (detect_all_disks e))"
  "filter (\<lambda>x. parse_size (d_size x) = k) (det_available (detect_all_disks e)) =
       filter (\<lambda>x. parse_size (d_size x) = k)
         (map (collect_info e)
            (filter (\<lambda>d. d \<noteq> [] \<and> excluded_reason e (get_system_disk e) d = None) (all_disks e)))"
  "set (det_available (detect_all_disks e)) =
       set (map (collect_info e)
            (filter (\<lambda>d. d \<noteq> [] \<and> excluded_reason e (get_system_disk e) d = None) (all_disks e)))"
  unfolding detect_available
  by (rule sort_desc_sorted, rule sort_desc_stable, rule set_sort_desc)

subsection \<open>Runs of the streaming adapters\<close>

lemma sync_with_progress_exited:
  assumes "popen (snapraid_bin @ '' sync'') = Exited out returncode"
  shows "fst (sync_with_progress popen clock) = Inr ()"
    and "map ev_message (snd (sync_with_progress popen clock)) =
      map (\<lambda>line. Line (strip line)) (read_lines [] (universal_newlines out))
      @ [if returncode = 0 then Msg_sync_ok else Msg_sync_failed]"
    and "map ev_type (snd (sync_with_progress popen clock)) =
      replicate (length (read_lines [] (universal_newlines out))) ''sync''
      @ [if returncode = 0 then ''complete'' else ''error'']"
    and "map ev_success (snd (sync_with_progress popen clock)) =
      replicate (length (read_lines [] (universal_newlines out))) None @ [Some (returncode = 0)]"
  using assms
  by (simp_all add: sync_with_progress_def line_events_fields [OF read_lines_nonempty])

lemma scrub_with_progress_exited:
  assumes "popen (snapraid_bin @ '' scrub -p 10'') = Exited out returncode"
  shows "fst (scrub_with_progress popen clock) = Inr ()"
    and "map ev_message (snd (scrub_with_progress popen clock)) =
      map (\<lambda>line. Line (strip line)) (read_lines [] (universal_newlines out)) @ [Msg_scrub_done]"
    and "map ev_type (snd (scrub_with_progress popen clock)) =
      replicate (length (read_lines [] (universal_newlines out))) ''scrub'' @ [''complete'']"
    and "map ev_success (snd (scrub_with_progress popen clock)) =
      replicate (length (read_lines [] (universal_newlines out))) None @ [Some (returncode = 0)]"
  using assms
  by (simp_all add: scrub_with_progress_def line_events_fields [OF read_lines_nonempty])

lemma sync_with_progress_undecodable:
  assumes "popen (snapraid_bin @ '' sync'') = Undecodable s"
  shows "fst (sync_with_progress popen clock) = Inl UnicodeDecodeError"
    and "map ev_type (snd (sync_with_progress popen clock)) =
      replicate (length (lines_before_failure s)) ''sync''"
  using assms
  by (simp_all add: sync_with_progress_def line_events_fields [OF lines_before_failure_nonempty])

lemma scrub_with_progress_undecodable:
  assumes "popen (snapraid_bin @ '' scrub -p 10'') = Undecodable s"
  shows "fst (scrub_with_progress popen clock) = Inl UnicodeDecodeError"
    and "map ev_type (snd (scrub_with_progress popen clock)) =
      replicate (length (lines_before_failure s)) ''scrub''"
  using assms
  by (simp_all add: scrub_with_progress_def line_events_fields [OF lines_before_failure_nonempty])

lemma universal_newlines_sample:
  "read_lines [] (universal_newlines (''10%'' @ [CHR 0x0D] @ ''20%'' @ [CHR 0x0D, CHR 0x0A] @ ''done\<newline>'')) =
     [''10%\<newline>'', ''20%\<newline>'', ''done\<newline>'']"
  by simp

section \<open>The guard on the number of disks\<close>

text \<open>
  C1. The specification has \<open>setup_manual\<close> fail with \<open>InsufficientDisks\<close>, before any
  destructive operation, when it is given fewer than two disks in all. The source has
  this guard in \<open>setup_automatic\<close> only. Called with a parity disk and no data disk,
  \<open>setup_manual\<close> never raises that error: on every host it first prepares the parity
  disk (unmount, wipe, zero, partition, format), and on a host where the file operations
  succeed it returns its success summary with an empty list of data disks.
\<close>

theorem setup_manual_single_disk_prepares:
  "fst (setup_manual e parity_disk [] cb) \<noteq> Inl InsufficientDisks
   \<and> take 8 (commands_of (snd (setup_manual e parity_disk [] cb))) =
       [''umount /dev/'' @ replace ''/dev/'' [] parity_disk @ ''* 2>/dev/null'',
        ''wipefs -af /dev/'' @ replace ''/dev/'' [] parity_disk,
        ''dd if=/dev/zero of=/dev/'' @ replace ''/dev/'' [] parity_disk @ '' bs=1M count=100 2>/dev/null'',
        ''parted -s /dev/'' @ replace ''/dev/'' [] parity_disk @ '' mklabel gpt'',
        ''parted -s /dev/'' @ replace ''/dev/'' [] parity_disk @ '' mkpart primary ext4 0% 100%'',
        ''partprobe /dev/'' @ replace ''/dev/'' [] parity_disk,
        ''sleep 2'',
        ''mkfs.ext4 -F -L parity /dev/'' @ replace ''/dev/'' [] parity_disk @ ''1'']
   \<and> fst (setup_manual (host_with []) ''/dev/sdb'' [] cb) =
       Inr \<lparr>r_success = True, r_parity = ''/dev/sdb'', r_data_disks = [],
            r_message = Msg_setup_done\<rparr>
   \<and> setup_automatic e [parity_disk] cb = (Inl InsufficientDisks, [])
   \<and> setup_automatic e [] cb = (Inl InsufficientDisks, [])"
proof (intro conjI)
  show "fst (setup_manual e parity_disk [] cb) \<noteq> Inl InsufficientDisks"
    by (simp add: setup_manual_def Let_def and_then_Inr [OF notify_result]
        and_then_Inr [OF prepare_disk_result] fst_and_then_Inl return_ok_def raise_def
        setup_fstab_def setup_mergerfs_def setup_snapraid_config_def fs_defs exec_def
        get_uuid_def split: option.splits)
  show "take 8 (commands_of (snd (setup_manual e parity_disk [] cb))) =
       [''umount /dev/'' @ replace ''/dev/'' [] parity_disk @ ''* 2>/dev/null'',
        ''wipefs -af /dev/'' @ replace ''/dev/'' [] parity_disk,
        ''dd if=/dev/zero of=/dev/'' @ replace ''/dev/'' [] parity_disk @ '' bs=1M count=100 2>/dev/null'',
        ''parted -s /dev/'' @ replace ''/dev/'' [] parity_disk @ '' mklabel gpt'',
        ''parted -s /dev/'' @ replace ''/dev/'' [] parity_disk @ '' mkpart primary ext4 0% 100%'',
        ''partprobe /dev/'' @ replace ''/dev/'' [] parity_disk,
        ''sleep 2'',
        ''mkfs.ext4 -F -L parity /dev/'' @ replace ''/dev/'' [] parity_disk @ ''1'']"
    by (simp add: setup_manual_def Let_def and_then_Inr [OF notify_result]
        and_then_Inr [OF prepare_disk_result] prepare_disk_commands)
  show "fst (setup_manual (host_with []) ''/dev/sdb'' [] cb) =
       Inr \<lparr>r_success = True, r_parity = ''/dev/sdb'', r_data_disks = [],
            r_message = Msg_setup_done\<rparr>"
    by (simp add: quiet_host_setup)
  show "setup_automatic e [parity_disk] cb = (Inl InsufficientDisks, [])"
    by (simp add: setup_automatic_def raise_def)
  show "setup_automatic e [] cb = (Inl InsufficientDisks, [])"
    by (simp add: setup_automatic_def raise_def)
qed

section \<open>The preparation pipeline\<close>

text \<open>
  C2 (amended). For every host, disk, label and callback, \<open>prepare_disk\<close> does not
  raise: \<open>run_command\<close> absorbs a failing stage (a non-zero exit status is not looked
  at, an exception of \<open>subprocess.run\<close> becomes a text), so the call returns \<open>True\<close>
  and runs all eight commands, in the order unmount, wipe, zero, partition table,
  partition, reread, settle, format, whatever their outcomes; it reports the six stages
  with the percentages 0, 20, 40, 60, 80, 100. Nothing else is run: no stage is undone.
\<close>

theorem prepare_disk_runs_every_stage:
  "fst (prepare_disk e disk_name label (cb :: 'e callback option)) = Inr True
   \<and> commands_of (snd (prepare_disk e disk_name label cb)) =
       [''umount /dev/'' @ replace ''/dev/'' [] disk_name @ ''* 2>/dev/null'',
        ''wipefs -af /dev/'' @ replace ''/dev/'' [] disk_name,
        ''dd if=/dev/zero of=/dev/'' @ replace ''/dev/'' [] disk_name @ '' bs=1M count=100 2>/dev/null'',
        ''parted -s /dev/'' @ replace ''/dev/'' [] disk_name @ '' mklabel gpt'',
        ''parted -s /dev/'' @ replace ''/dev/'' [] disk_name @ '' mkpart primary ext4 0% 100%'',
        ''partprobe /dev/'' @ replace ''/dev/'' [] disk_name,
        ''sleep 2'',
        ''mkfs.ext4 -F -L '' @ label @ '' /dev/'' @ replace ''/dev/'' [] disk_name @ ''1'']
   \<and> map (\<lambda>(step, msg, percentage). (step, percentage))
         (progress_of (snd (prepare_disk e disk_name label (Some record_call)))) =
       [(''preparing'', PyInt 0), (''wiping'', PyInt 20), (''partitioning'', PyInt 40),
        (''creating'', PyInt 60), (''formatting'', PyInt 80), (''complete'', PyInt 100)]"
  by (simp add: prepare_disk_result prepare_disk_commands prepare_disk_progress record_call_def)

theorem prepare_disk_runs_every_stage_witness:
  "shell wipe_fails ''wipefs -af /dev/sdb'' = Completed 1 []
   \<and> fst (prepare_disk wipe_fails ''/dev/sdb'' ''parity'' (None :: unit callback option)) = Inr True
   \<and> commands_of (snd (prepare_disk wipe_fails ''/dev/sdb'' ''parity'' (None :: unit callback option))) =
       [''umount /dev/sdb* 2>/dev/null'', ''wipefs -af /dev/sdb'',
        ''dd if=/dev/zero of=/dev/sdb bs=1M count=100 2>/dev/null'',
        ''parted -s /dev/sdb mklabel gpt'',
        ''parted -s /dev/sdb mkpart primary ext4 0% 100%'',
        ''partprobe /dev/sdb'', ''sleep 2'', ''mkfs.ext4 -F -L parity /dev/sdb1'']"
proof -
  have s: "shell wipe_fails ''wipefs -af /dev/sdb'' = Completed 1 []"
    by (simp add: wipe_fails_def host_with_def)
  from s prepare_disk_runs_every_stage [where 'e = unit, of wipe_fails "''/dev/sdb''" "''parity''" None]
  show ?thesis by (simp add: replace_dev_sdb)
qed

text \<open>
  The claim as the specification states it (a failing stage raises
  \<open>PreparationFailed\<close> and no later stage runs) fails on a host where \<open>wipefs\<close> exits
  with status 1 and the first \<open>parted\<close> call times out: the call still returns \<open>True\<close>
  and goes on to partition and format the disk.
\<close>

theorem prepare_disk_ignores_failure_counterexample:
  "shell wipe_fails ''wipefs -af /dev/sdb'' = Completed 1 []
   \<and> shell wipe_fails ''parted -s /dev/sdb mklabel gpt'' = Raised ''timed out after 30 seconds''
   \<and> fst (prepare_disk wipe_fails ''/dev/sdb'' ''parity'' (Some record_call)) = Inr True
   \<and> snd (prepare_disk wipe_fails ''/dev/sdb'' ''parity'' (Some record_call)) =
       [Progress (''preparing'', Msg_preparing ''/dev/sdb'', PyInt 0),
        Run ''umount /dev/sdb* 2>/dev/null'',
        Progress (''wiping'', Msg_wiping, PyInt 20),
        Run ''wipefs -af /dev/sdb'',
        Run ''dd if=/dev/zero of=/dev/sdb bs=1M count=100 2>/dev/null'',
        Progress (''partitioning'', Msg_partition_table, PyInt 40),
        Run ''parted -s /dev/sdb mklabel gpt'',
        Progress (''creating'', Msg_create_partition, PyInt 60),
        Run ''parted -s /dev/sdb mkpart primary ext4 0% 100%'',
        Run ''partprobe /dev/sdb'',
        Run ''sleep 2'',
        Progress (''formatting'', Msg_formatting, PyInt 80),
        Run ''mkfs.ext4 -F -L parity /dev/sdb1'',
        Progress (''complete'', Msg_prepared ''/dev/sdb'', PyInt 100)]"
  by (simp add: wipe_fails_def host_with_def prepare_disk_def eff_defs Let_def replace_dev_sdb
      record_call_def)

section \<open>Progress of the orchestration\<close>





section \<open>The status interpreter\<close>

text \<open>
  C4. The specification has the status parser return a status for every text and never
  fail. In the source, \<open>get_status\<close> evaluates \<open>os.path.exists\<close> although
  \<open>snapraid_manager.py\<close> does not import \<open>os\<close>: on every host, whatever the parity
  tool prints, the call raises \<open>NameError\<close> before it parses anything.
\<close>

theorem get_status_raises: "get_status e = Inl (NameError ''os'')"
  by (simp add: get_status_def lookup_global_def module_globals_def Let_def)

text \<open>
  C5 (amended). The parsing part of \<open>get_status\<close> (lines 39 to 51), applied to the
  initial status: the sentinel is the text \<open>No differences\<close>, matched with its capital
  letter. A text that contains it is protected with 0 changes; any other text is not
  protected, and its changes are the sum of the numbers of all matches of
  \<open><n> added|removed|updated\<close>, which is 0 when the text contains none of the three
  words. The file count is the number of the first match of \<open><n> files\<close>, and 0 when
  there is none. So \<open>No differences found\<close> gives protected with 0 changes, and
  \<open>3 added, 2 removed, 12 files\<close> gives 5 changes and 12 files.
\<close>

theorem interpret_output_fields:
  "st_protected (interpret_output (initial_status c) out) = contains out ''No differences''
   \<and> st_changes (interpret_output (initial_status c) out) =
       (if contains out ''No differences'' then 0
        else sum_list (map (\<lambda>g. int (digits_value g)) (findall_changes out)))
   \<and> st_files_count (interpret_output (initial_status c) out) =
       (case search_files out of None \<Rightarrow> 0 | Some g \<Rightarrow> int (digits_value g))
   \<and> (\<not> contains out ''added'' \<and> \<not> contains out ''removed'' \<and> \<not> contains out ''updated''
        \<longrightarrow> st_changes (interpret_output (initial_status c) out) = 0)
   \<and> interpret_output (initial_status c) ''No differences found''
       = (initial_status c)\<lparr>st_protected := True\<rparr>
   \<and> interpret_output (initial_status c) ''3 added, 2 removed, 12 files''
       = (initial_status c)\<lparr>st_changes := 5, st_files_count := 12\<rparr>"
proof (intro conjI impI)
  show "st_protected (interpret_output (initial_status c) out) = contains out ''No differences''"
    by (simp add: interpret_output_def initial_status_def Let_def split: option.splits)
  show "st_changes (interpret_output (initial_status c) out) =
       (if contains out ''No differences'' then 0
        else sum_list (map (\<lambda>g. int (digits_value g)) (findall_changes out)))"
    by (simp add: interpret_output_def initial_status_def Let_def split: option.splits)
  show "st_files_count (interpret_output (initial_status c) out) =
       (case search_files out of None \<Rightarrow> 0 | Some g \<Rightarrow> int (digits_value g))"
    by (simp add: interpret_output_def initial_status_def Let_def split: option.splits)
  show "st_changes (interpret_output (initial_status c) out) = 0"
    if "\<not> contains out ''added'' \<and> \<not> contains out ''removed'' \<and> \<not> contains out ''updated''"
    using that
    by (simp add: interpret_output_def initial_status_def Let_def findall_changes_none
        split: option.splits)
  show "interpret_output (initial_status c) ''No differences found''
       = (initial_status c)\<lparr>st_protected := True\<rparr>"
    by (simp add: status_defs)
  show "interpret_output (initial_status c) ''3 added, 2 removed, 12 files''
       = (initial_status c)\<lparr>st_changes := 5, st_files_count := 12\<rparr>"
    by (simp add: status_defs)
qed

theorem interpret_output_fields_witness:
  "\<not> contains ''Everything OK'' ''added'' \<and> \<not> contains ''Everything OK'' ''removed''
   \<and> \<not> contains ''Everything OK'' ''updated''
   \<and> st_changes (interpret_output (initial_status True) ''Everything OK'') = 0
   \<and> st_protected (interpret_output (initial_status True) ''Everything OK'') = False
   \<and> st_files_count (interpret_output (initial_status True) ''Everything OK'') = 0"
proof -
  have h: "\<not> contains ''Everything OK'' ''added'' \<and> \<not> contains ''Everything OK'' ''removed''
      \<and> \<not> contains ''Everything OK'' ''updated''"
    by simp
  have n: "\<not> contains ''Everything OK'' ''No differences''" "search_files ''Everything OK'' = None"
    by (simp_all add: match_files_def is_digit_def)
  from h n interpret_output_fields [of True "''Everything OK''"] show ?thesis
    by simp
qed

text \<open>
  The claim as the specification states it fails on its own example: the text
  \<open>no differences found\<close>, in lower case, does not contain the sentinel and is reported
  as not protected.
\<close>

theorem interpret_output_sentinel_counterexample:
  "st_protected (interpret_output (initial_status True) ''no differences found'') = False
   \<and> st_changes (interpret_output (initial_status True) ''no differences found'') = 0"
  by (simp add: status_defs)

section \<open>The streaming adapters\<close>

text \<open>
  C6. The specification has one message event for each non-empty line of the output, and
  the source guards the \<open>yield\<close> of a message event with \<open>if line:\<close>. The guard tests
  the string \<open>readline\<close> returned, which still carries its line feed, so it never
  fails: no line read is the empty string, whatever the process prints. When the process
  prints the line \<open>a\<close>, a blank line and the line \<open>b\<close> and exits with status 0, both
  adapters return after four events: three message events, the second with the empty
  message of the blank line, and the terminal event, where the specification has two
  message events.
\<close>

theorem sync_with_progress_blank_line:
  "sync_with_progress (\<lambda>cmd. Exited ''a\<newline>\<newline>b\<newline>'' 0) clock =
     (Inr (),
      [\<lparr>ev_type = ''sync'', ev_message = Line ''a'', ev_timestamp = Some (clock 0), ev_success = None\<rparr>,
       \<lparr>ev_type = ''sync'', ev_message = Line [], ev_timestamp = Some (clock 1), ev_success = None\<rparr>,
       \<lparr>ev_type = ''sync'', ev_message = Line ''b'', ev_timestamp = Some (clock 2), ev_success = None\<rparr>,
       \<lparr>ev_type = ''complete'', ev_message = Msg_sync_ok, ev_timestamp = None, ev_success = Some True\<rparr>])
   \<and> scrub_with_progress (\<lambda>cmd. Exited ''a\<newline>\<newline>b\<newline>'' 0) clock =
     (Inr (),
      [\<lparr>ev_type = ''scrub'', ev_message = Line ''a'', ev_timestamp = Some (clock 0), ev_success = None\<rparr>,
       \<lparr>ev_type = ''scrub'', ev_message = Line [], ev_timestamp = Some (clock 1), ev_success = None\<rparr>,
       \<lparr>ev_type = ''scrub'', ev_message = Line ''b'', ev_timestamp = Some (clock 2), ev_success = None\<rparr>,
       \<lparr>ev_type = ''complete'', ev_message = Msg_scrub_done, ev_timestamp = None, ev_success = Some True\<rparr>])
   \<and> filter (\<lambda>line. line \<noteq> []) (read_lines [] (universal_newlines out)) =
       read_lines [] (universal_newlines out)"
  by (simp add: sync_with_progress_def scrub_with_progress_def line_events_def strip_def
      is_space_def read_lines_no_blank numeral_2_eq_2)

section \<open>Classification of the inventory\<close>

text \<open>
  C7. For every device that \<open>detect_all_disks\<close> classifies (a non-empty name of the
  enumeration), the exclusion rules apply in the order 1 virtual device, 2 system disk,
  3 external USB disk, 4 too small, 5 mounted on a system path, and the first that
  matches wins: when rule \<open>k\<close> matches and no rule of a lower number does, the device is
  in the excluded list with the reason of rule \<open>k\<close>, every excluded entry of that name
  carries that reason and no other, and the device is not in the available list,
  whatever rules of a higher number match as well. A device that no rule matches is in
  the available list and not in the excluded one.
\<close>

theorem exclusion_lowest_rule_wins:
  "d \<in> set (all_disks e) \<Longrightarrow> d \<noteq> [] \<Longrightarrow>
     (1 \<le> k \<and> k \<le> 5 \<and> spec_rule_matches e (get_system_disk e) d k
        \<and> (\<forall>j. 1 \<le> j \<and> j < k \<longrightarrow> \<not> spec_rule_matches e (get_system_disk e) d j)
      \<longrightarrow> (collect_info e d)\<lparr>d_reason := Some (spec_rule_reason k)\<rparr>
             \<in> set (det_excluded (detect_all_disks e))
          \<and> (\<forall>x \<in> set (det_excluded (detect_all_disks e)).
                d_name x = ''/dev/'' @ d \<longrightarrow> d_reason x = Some (spec_rule_reason k))
          \<and> (\<forall>x \<in> set (det_available (detect_all_disks e)). d_name x \<noteq> ''/dev/'' @ d))
     \<and> ((\<forall>j. \<not> spec_rule_matches e (get_system_disk e) d j)
      \<longrightarrow> collect_info e d \<in> set (det_available (detect_all_disks e))
          \<and> (\<forall>x \<in> set (det_excluded (detect_all_disks e)). d_name x \<noteq> ''/dev/'' @ d))"
proof (intro conjI impI)
  assume d: "d \<in> set (all_disks e)" "d \<noteq> []"
  {
    assume k: "1 \<le> k \<and> k \<le> 5 \<and> spec_rule_matches e (get_system_disk e) d k
        \<and> (\<forall>j. 1 \<le> j \<and> j < k \<longrightarrow> \<not> spec_rule_matches e (get_system_disk e) d j)"
    then have r: "excluded_reason e (get_system_disk e) d = Some (spec_rule_reason k)"
      by (intro excluded_reason_lowest) auto
    from d r show "(collect_info e d)\<lparr>d_reason := Some (spec_rule_reason k)\<rparr>
             \<in> set (det_excluded (detect_all_disks e))"
      by (force simp: detect_excluded)
    from r show "\<forall>x \<in> set (det_excluded (detect_all_disks e)).
                d_name x = ''/dev/'' @ d \<longrightarrow> d_reason x = Some (spec_rule_reason k)"
      by (auto simp: detect_excluded)
    from r show "\<forall>x \<in> set (det_available (detect_all_disks e)). d_name x \<noteq> ''/dev/'' @ d"
      by (auto simp: detect_available)
  }
  {
    assume "\<forall>j. \<not> spec_rule_matches e (get_system_disk e) d j"
    then have r: "excluded_reason e (get_system_disk e) d = None"
      by (rule excluded_reason_none)
    from d r show "collect_info e d \<in> set (det_available (detect_all_disks e))"
      by (auto simp: detect_available)
    from r show "\<forall>x \<in> set (det_excluded (detect_all_disks e)). d_name x \<noteq> ''/dev/'' @ d"
      by (auto simp: detect_excluded)
  }
qed

theorem exclusion_lowest_rule_wins_witness:
  "''sda'' \<in> set (all_disks small_system_disk)
   \<and> spec_rule_matches small_system_disk (get_system_disk small_system_disk) ''sda'' 2
   \<and> spec_rule_matches small_system_disk (get_system_disk small_system_disk) ''sda'' 4
   \<and> (collect_info small_system_disk ''sda'')\<lparr>d_reason := Some System_disk\<rparr>
       \<in> set (det_excluded (detect_all_disks small_system_disk))
   \<and> ''/dev/sda'' \<notin> set (map d_name (det_available (detect_all_disks small_system_disk)))
   \<and> collect_info small_system_disk ''sdb'' \<in> set (det_available (detect_all_disks small_system_disk))"
proof -
  have a: "''sda'' \<in> set (all_disks small_system_disk)" "''sdb'' \<in> set (all_disks small_system_disk)"
    by (simp_all add: small_inventory)
  have low: "\<forall>j. 1 \<le> j \<and> j < 2 \<longrightarrow>
      \<not> spec_rule_matches small_system_disk (get_system_disk small_system_disk) ''sda'' j"
  proof (intro allI impI)
    fix j :: nat
    assume "1 \<le> j \<and> j < 2"
    then have "j = 1" by simp
    with small_rules(3)
    show "\<not> spec_rule_matches small_system_disk (get_system_disk small_system_disk) ''sda'' j"
      by (simp add: small_inventory)
  qed
  have none: "\<forall>j. \<not> spec_rule_matches small_system_disk (get_system_disk small_system_disk) ''sdb'' j"
    by (simp add: small_inventory small_rules)
  have m: "spec_rule_matches small_system_disk (get_system_disk small_system_disk) ''sda'' 2"
      "spec_rule_matches small_system_disk (get_system_disk small_system_disk) ''sda'' 4"
    by (simp_all add: small_inventory small_rules)
  from exclusion_lowest_rule_wins [of "''sda''" small_system_disk 2, OF a(1)] m low
  have sda: "(collect_info small_system_disk ''sda'')\<lparr>d_reason := Some (spec_rule_reason 2)\<rparr>
             \<in> set (det_excluded (detect_all_disks small_system_disk))"
    and no: "\<forall>x \<in> set (det_available (detect_all_disks small_system_disk)). d_name x \<noteq> ''/dev/'' @ ''sda''"
    by simp_all
  from exclusion_lowest_rule_wins [of "''sdb''" small_system_disk 0, OF a(2)] none
  have sdb: "collect_info small_system_disk ''sdb'' \<in> set (det_available (detect_all_disks small_system_disk))"
    by simp
  from a m sda no sdb show ?thesis
    by (auto simp: spec_rule_reason_def)
qed

text \<open>
  C8. The specification has the available list in descending order of the disk size, and
  the source says so itself (\<open>sort by size, largest first\<close>); \<open>setup_automatic\<close> sorts on
  \<open>get_disk_size_gb\<close>. \<open>detect_all_disks\<close> sorts on \<open>parse_size\<close> of the displayed size
  instead, which has one decimal, in thousands of GiB from 1000 on. On a host that
  enumerates a disk of 1100 GiB before a disk of 1120 GiB, both are displayed as
  \<open>1.1 TB\<close>, their keys are equal and the stable sort leaves the smaller disk first,
  while the order \<open>setup_automatic\<close> computes for the same two disks has the larger
  disk first.
\<close>

theorem detect_all_disks_orders_by_displayed_size:
  "map d_name (det_available (detect_all_disks twin_disks)) = [''/dev/sdb'', ''/dev/sdc'']
   \<and> map d_size (det_available (detect_all_disks twin_disks)) = [''1.1 TB'', ''1.1 TB'']
   \<and> get_disk_size_gb twin_disks ''sdb'' = 1100
   \<and> get_disk_size_gb twin_disks ''sdc'' = 1120
   \<and> sort_desc (\<lambda>d. get_disk_size_gb twin_disks (replace ''/dev/'' [] d))
        [''/dev/sdb'', ''/dev/sdc''] = [''/dev/sdc'', ''/dev/sdb'']"
  by (simp add: detect_available twin_inventory twin_reasons sort_desc_def sort_key_def
      twin_sizes fmt_1100 fmt_1120 parse_11 replace_def)

section \<open>The progress sink\<close>

text \<open>
  C9. \<open>emit_progress\<close> puts the key \<open>percentage\<close> into the delivered dictionary exactly
  when the percentage it is given is truthy, and then with that value; \<open>step\<close> and
  \<open>message\<close> are always there. The first progress call of \<open>prepare_disk\<close> passes the
  integer \<open>0\<close>, so through this sink it is delivered without a percentage.
\<close>

theorem emit_progress_percentage:
  "(''percentage'' \<in> dom (emit_progress step msg p)) = truthy p
   \<and> emit_progress step msg p ''percentage'' = (if truthy p then Some (Number p) else None)
   \<and> emit_progress step msg p ''step'' = Some (Text step)
   \<and> emit_progress step msg p ''message'' = Some (Message msg)
   \<and> take 1 (snd (prepare_disk e disk label (Some emit_progress)))
       = [Progress (emit_progress ''preparing'' (Msg_preparing disk) (PyInt 0))]
   \<and> ''percentage'' \<notin> dom (emit_progress ''preparing'' (Msg_preparing disk) (PyInt 0))"
  by (simp add: emit_progress_def Let_def prepare_disk_def eff_defs)

theorem emit_progress_percentage_witness:
  "''percentage'' \<in> dom (emit_progress ''wiping'' Msg_wiping (PyInt 20))
   \<and> ''percentage'' \<notin> dom (emit_progress ''preparing'' (Msg_preparing ''/dev/sdb'') (PyInt 0))
   \<and> ''percentage'' \<notin> dom (emit_progress ''x'' Msg_wiping (PyFloat 0))
   \<and> ''percentage'' \<notin> dom (emit_progress ''x'' Msg_wiping PyNone)"
  using emit_progress_percentage [of "''wiping''" Msg_wiping "PyInt 20"]
    emit_progress_percentage [of "''x''" Msg_wiping "PyFloat 0"]
    emit_progress_percentage [of "''x''" Msg_wiping "PyNone"]
    emit_progress_percentage [of "''preparing''" "Msg_preparing ''/dev/sdb''" "PyInt 0"]
  by simp

section \<open>Persistent identifiers (\<open>get_uuid\<close>, \<open>setup_fstab\<close>)\<close>

text \<open>
  C10. \<open>get_uuid\<close> asks \<open>blkid\<close> for the path \<open>disk + "1"\<close> when the identifier
  does not end in the character \<open>1\<close>, and for the identifier itself when it does. The
  text \<open>setup_fstab\<close> appends to \<open>/etc/fstab\<close> is built from these answers, so for a
  whole-disk identifier that ends in \<open>1\<close> the mount entry carries what \<open>blkid\<close> says of
  the whole disk, not of its first partition.
\<close>

theorem get_uuid_partition_path:
  "(get_uuid e disk :: (string, 'e) eff) =
     exec e (''blkid -s UUID -o value ''
               @ (if disk \<noteq> [] \<and> last disk = CHR ''1'' then disk else disk @ ''1''))
   \<and> (AppendFile path txt \<in> set (snd (setup_fstab e parity_disk ds :: (unit, 'e) eff)) \<longrightarrow>
        path = ''/etc/fstab'' \<and>
        txt = join ''\<newline>''
          ([''\<newline># Smart Storage Manager'',
            fstab_line
              (run_command e (''blkid -s UUID -o value ''
                 @ (if parity_disk \<noteq> [] \<and> last parity_disk = CHR ''1'' then parity_disk
                    else parity_disk @ ''1'')))
              ''/mnt/parity'']
           @ map (\<lambda>d. fstab_line
                    (run_command e (''blkid -s UUID -o value ''
                       @ (if p_disk d \<noteq> [] \<and> last (p_disk d) = CHR ''1'' then p_disk d
                          else p_disk d @ ''1'')))
                    (''/mnt/disk'' @ show_nat (p_number d))) ds))"
proof (intro conjI impI)
  show "(get_uuid e disk :: (string, 'e) eff) =
     exec e (''blkid -s UUID -o value ''
               @ (if disk \<noteq> [] \<and> last disk = CHR ''1'' then disk else disk @ ''1''))"
    by (simp add: get_uuid_def uuid_path_last)
next
  assume a: "AppendFile path txt \<in> set (snd (setup_fstab e parity_disk ds :: (unit, 'e) eff))"
  have m: "AppendFile path txt \<notin> set (snd (makedirs_data e ds :: (unit, 'e) eff))"
    by (rule makedirs_data_actions)
  from a m show "path = ''/etc/fstab''"
    by (auto simp: setup_fstab_def and_then_def exec_def return_ok_def raise_def
        os_makedirs_def open_read_def open_append_def get_uuid_def data_entries_result
        split: sum.splits if_splits option.splits)
  from a m show "txt = join ''\<newline>''
          ([''\<newline># Smart Storage Manager'',
            fstab_line
              (run_command e (''blkid -s UUID -o value ''
                 @ (if parity_disk \<noteq> [] \<and> last parity_disk = CHR ''1'' then parity_disk
                    else parity_disk @ ''1'')))
              ''/mnt/parity'']
           @ map (\<lambda>d. fstab_line
                    (run_command e (''blkid -s UUID -o value ''
                       @ (if p_disk d \<noteq> [] \<and> last (p_disk d) = CHR ''1'' then p_disk d
                          else p_disk d @ ''1'')))
                    (''/mnt/disk'' @ show_nat (p_number d))) ds)"
    by (auto simp: setup_fstab_def and_then_def exec_def return_ok_def raise_def
        os_makedirs_def open_read_def open_append_def get_uuid_def data_entries_result
        uuid_path_last
        split: sum.splits if_splits option.splits)
qed


theorem get_uuid_partition_path_witness:
  "AppendFile ''/etc/fstab''
      ''\<newline># Smart Storage Manager\<newline>UUID=1234-ABCD  /mnt/parity  ext4  defaults,noatime,nofail  0  2''
     \<in> set (snd (setup_fstab nvme_host ''/dev/nvme0n1'' [] :: (unit, unit) eff))
   \<and> ''\<newline># Smart Storage Manager\<newline>UUID=1234-ABCD  /mnt/parity  ext4  defaults,noatime,nofail  0  2''
     = join ''\<newline>'' [''\<newline># Smart Storage Manager'',
         fstab_line (run_command nvme_host ''blkid -s UUID -o value /dev/nvme0n1'') ''/mnt/parity'']
   \<and> (get_uuid nvme_host ''/dev/nvme0n1'' :: (string, unit) eff)
     = (Inr ''1234-ABCD'', [Run ''blkid -s UUID -o value /dev/nvme0n1''])
   \<and> (get_uuid nvme_host ''/dev/sdb'' :: (string, unit) eff)
     = (Inr [], [Run ''blkid -s UUID -o value /dev/sdb1''])"
proof -
  have r: "run_command nvme_host ''blkid -s UUID -o value /dev/nvme0n1'' = ''1234-ABCD''"
    by (simp add: run_command_def nvme_host_def host_with_def strip_def is_space_def)
  have r': "run_command nvme_host ''blkid -s UUID -o value /dev/sdb1'' = []"
    by (simp add: run_command_def nvme_host_def host_with_def strip_def is_space_def)
  have h: "AppendFile ''/etc/fstab''
      ''\<newline># Smart Storage Manager\<newline>UUID=1234-ABCD  /mnt/parity  ext4  defaults,noatime,nofail  0  2''
     \<in> set (snd (setup_fstab nvme_host ''/dev/nvme0n1'' [] :: (unit, unit) eff))"
    by (simp add: setup_fstab_def eff_defs fs_defs get_uuid_def uuid_path_def endswith_def r
        fstab_line_def)
       (simp add: nvme_host_def host_with_def)
  from h r r' get_uuid_partition_path [where 'e = unit, of nvme_host "''/dev/nvme0n1''" "''/etc/fstab''"
      "''\<newline># Smart Storage Manager\<newline>UUID=1234-ABCD  /mnt/parity  ext4  defaults,noatime,nofail  0  2''"
      "''/dev/nvme0n1''" "[]"]
    get_uuid_partition_path [where 'e = unit, of nvme_host "''/dev/sdb''" "[]" "[]" "[]" "[]"]
  show ?thesis by (simp add: exec_def)
qed

end
